theory Spec2Isabelle
  imports Main
begin

section \<open>Data model\<close>

text \<open>
  The lesson records are the dictionaries decoded from the upstream JSON. A field value is
  one of the JSON scalars or an array; JSON floats and nested objects do not occur in the
  fields the code reads and are left out. Strings are ASCII character lists.
\<close>

datatype pyval = PNone | PBool bool | PInt int | PStr string | PList "pyval list"

text \<open>A \<^verbatim>\<open>dict\<close> with string keys: \<open>d k = None\<close> is a missing key.\<close>

type_synonym lesson = "string \<rightharpoonup> pyval"

text \<open>Python truth value testing (\<^verbatim>\<open>not x\<close> is \<open>\<not> truthy x\<close>).\<close>

fun truthy :: "pyval \<Rightarrow> bool" where
  "truthy PNone = False"
| "truthy (PBool b) = b"
| "truthy (PInt i) = (i \<noteq> 0)"
| "truthy (PStr s) = (s \<noteq> [])"
| "truthy (PList vs) = (vs \<noteq> [])"

text \<open>\<^verbatim>\<open>d.get(k)\<close>: the value, or \<^verbatim>\<open>None\<close> for a missing key.\<close>

definition dict_get :: "lesson \<Rightarrow> string \<Rightarrow> pyval" where
  "dict_get d k = (case d k of None \<Rightarrow> PNone | Some v \<Rightarrow> v)"

section \<open>schedule.py: \<^verbatim>\<open>sanitize_schedule_data\<close>\<close>

definition needed_fields :: "string list" where
  "needed_fields =
     [''scheduleDate'', ''startTime'', ''endTime'', ''moduleName'',
      ''venueName'', ''lecturerName'', ''lessonTypeName'', ''scheduleStatus'']"

text \<open>
  The dict comprehension \<^verbatim>\<open>{key: item[key] for key in needed_fields if key in item}\<close>:
  the keys are visited in order and each one present in \<open>item\<close> is stored into the
  dictionary built so far.
\<close>

fun dict_comprehension :: "lesson \<Rightarrow> string list \<Rightarrow> lesson \<Rightarrow> lesson" where
  "dict_comprehension item [] acc = acc"
| "dict_comprehension item (key # keys) acc =
     (case item key of
        None \<Rightarrow> dict_comprehension item keys acc
      | Some v \<Rightarrow> dict_comprehension item keys (acc(key \<mapsto> v)))"

definition sanitize_schedule_data :: "lesson list \<Rightarrow> lesson list" where
  "sanitize_schedule_data data =
     map (\<lambda>item. dict_comprehension item needed_fields Map.empty) data"

section \<open>Exceptions and log records\<close>

text \<open>
  Exceptions are values. Every constructor stands for a subclass of \<^verbatim>\<open>Exception\<close>;
  \<open>Failure\<close> is any exception raised by a collaborator (database, network, Telegram).
\<close>

datatype error =
    KeyError string
  | TypeError
  | ValueError
  | IndexError
  | OverflowError
  | Failure string

text \<open>
  A log record is its level and the literal part of the message; the interpolated values
  are not rendered.
\<close>

datatype level = DEBUG | INFO | WARNING | ERROR

datatype log_record = Log level string

section \<open>\<^verbatim>\<open>datetime\<close>: dates and times of day\<close>

record pytime =
  hour :: nat
  minute :: nat
  second :: nat
  microsecond :: nat

record pydate =
  year :: nat
  month :: nat
  day :: nat

record datetime =
  date :: pydate
  time :: pytime

text \<open>The invariant of every \<^verbatim>\<open>datetime.time\<close> object.\<close>

definition valid_time :: "pytime \<Rightarrow> bool" where
  "valid_time t =
     (hour t < 24 \<and> minute t < 60 \<and> second t < 60 \<and> microsecond t < 1000000)"

text \<open>Microseconds since midnight.\<close>

definition micros :: "pytime \<Rightarrow> nat" where
  "micros t = ((hour t * 60 + minute t) * 60 + second t) * 1000000 + microsecond t"

definition time_of_micros :: "nat \<Rightarrow> pytime" where
  "time_of_micros n =
     \<lparr>hour = n div 3600000000, minute = n div 60000000 mod 60,
      second = n div 1000000 mod 60, microsecond = n mod 1000000\<rparr>"

text \<open>
  \<^verbatim>\<open>a <= b\<close> on naive \<^verbatim>\<open>time\<close> objects compares the tuples
  (hour, minute, second, microsecond) lexicographically.
\<close>

definition time_le :: "pytime \<Rightarrow> pytime \<Rightarrow> bool" where
  "time_le a b =
     (hour a < hour b \<or> (hour a = hour b \<and>
       (minute a < minute b \<or> (minute a = minute b \<and>
         (second a < second b \<or> (second a = second b \<and>
           microsecond a \<le> microsecond b))))))"

text \<open>
  \<^verbatim>\<open>(datetime.combine(date.today(), t) - timedelta(minutes=5)).time()\<close>: five minutes are
  taken off on the calendar and the date is dropped again, so a time of day before
  00:05:00 lands on the evening of the day before. (The anchor \<^verbatim>\<open>date.today()\<close> is the
  system clock's date, never the minimal date, so the subtraction itself does not overflow.)
\<close>

definition window_start :: "pytime \<Rightarrow> pytime" where
  "window_start t =
     (if 300000000 \<le> micros t then time_of_micros (micros t - 300000000)
      else time_of_micros (micros t + 86400000000 - 300000000))"

definition is_leap :: "nat \<Rightarrow> bool" where
  "is_leap y = (y mod 4 = 0 \<and> (y mod 100 \<noteq> 0 \<or> y mod 400 = 0))"

definition days_in_month :: "nat \<Rightarrow> nat \<Rightarrow> nat" where
  "days_in_month y m =
     (if m = 2 then (if is_leap y then 29 else 28)
      else if m = 4 \<or> m = 6 \<or> m = 9 \<or> m = 11 then 30 else 31)"

text \<open>
  \<^verbatim>\<open>d - timedelta(days=1)\<close>; the day before 0001-01-01 is out of range.
\<close>

definition date_minus_one_day :: "pydate \<Rightarrow> error + pydate" where
  "date_minus_one_day d =
     (if 1 < day d then Inr (d\<lparr>day := day d - 1\<rparr>)
      else if 1 < month d then
        Inr (d\<lparr>month := month d - 1, day := days_in_month (year d) (month d - 1)\<rparr>)
      else if 1 < year d then Inr \<lparr>year = year d - 1, month = 12, day = 31\<rparr>
      else Inl OverflowError)"

definition digit_char :: "nat \<Rightarrow> char" where
  "digit_char n = ''0123456789'' ! (n mod 10)"

text \<open>\<^verbatim>\<open>date.isoformat()\<close>: \<^verbatim>\<open>%04d-%02d-%02d\<close> (years run from 1 to 9999).\<close>

definition isoformat :: "pydate \<Rightarrow> string" where
  "isoformat d =
     [digit_char (year d div 1000), digit_char (year d div 100),
      digit_char (year d div 10), digit_char (year d)] @ ''-'' @
     [digit_char (month d div 10), digit_char (month d)] @ ''-'' @
     [digit_char (day d div 10), digit_char (day d)]"

text \<open>
  \<^verbatim>\<open>datetime.strptime(t, "%H:%M:%S").time()\<close>. The format compiles to the regular
  expression \<^verbatim>\<open>(2[0-3]|[0-1]\d|\d):([0-5]\d|\d):(6[0-1]|[0-5]\d|\d)\<close>, which has to
  consume the whole string; seconds 60 and 61 pass the expression and are then refused by
  the \<^verbatim>\<open>datetime\<close> constructor. So a string is accepted exactly when it consists of
  three colon-separated fields of one or two digits with hour below 24 and minute and
  second below 60. Every failure of that kind is a \<^verbatim>\<open>ValueError\<close>; an argument that is
  not a string is a \<^verbatim>\<open>TypeError\<close>. (The digits are the ASCII digits; strings are ASCII.)
\<close>

definition is_digit :: "char \<Rightarrow> bool" where
  "is_digit c = (c \<in> set ''0123456789'')"

definition digit_value :: "char \<Rightarrow> nat" where
  "digit_value c = of_char c - 48"

fun field_value :: "string \<Rightarrow> nat option" where
  "field_value [a] = (if is_digit a then Some (digit_value a) else None)"
| "field_value [a, b] =
     (if is_digit a \<and> is_digit b then Some (10 * digit_value a + digit_value b) else None)"
| "field_value _ = None"

fun split_on :: "char \<Rightarrow> string \<Rightarrow> string list" where
  "split_on c [] = [[]]"
| "split_on c (x # xs) =
     (if x = c then [] # split_on c xs
      else (case split_on c xs of [] \<Rightarrow> [[x]] | y # ys \<Rightarrow> (x # y) # ys))"

definition strptime_hms :: "string \<Rightarrow> pytime option" where
  "strptime_hms s =
     (case split_on CHR '':'' s of
        [hs, ms, ss] \<Rightarrow>
          (case (field_value hs, field_value ms, field_value ss) of
             (Some h, Some m, Some sec) \<Rightarrow>
               if h < 24 \<and> m < 60 \<and> sec < 60
               then Some \<lparr>hour = h, minute = m, second = sec, microsecond = 0\<rparr>
               else None
           | _ \<Rightarrow> None)
      | _ \<Rightarrow> None)"

definition strptime :: "pyval \<Rightarrow> error + pytime" where
  "strptime t =
     (case t of
        PStr s \<Rightarrow> (case strptime_hms s of None \<Rightarrow> Inl ValueError | Some tm \<Rightarrow> Inr tm)
      | _ \<Rightarrow> Inl TypeError)"

section \<open>lesson\_check.py: \<^verbatim>\<open>parse_time\<close> and \<^verbatim>\<open>get_lessons_to_check\<close>\<close>

text \<open>
  \<^verbatim>\<open>parse_time\<close> catches \<^verbatim>\<open>ValueError\<close> only: it logs the failure and returns
  \<^verbatim>\<open>None\<close>. Any other exception of \<^verbatim>\<open>strptime\<close> leaves the function. The result is
  paired with the records logged.
\<close>

definition parse_time :: "pyval \<Rightarrow> (error + pytime option) \<times> log_record list" where
  "parse_time t =
     (case strptime t of
        Inr tm \<Rightarrow> (Inr (Some tm), [])
      | Inl ValueError \<Rightarrow> (Inr None, [Log ERROR ''Failed to parse time''])
      | Inl e \<Rightarrow> (Inl e, []))"

text \<open>The collaborators of the module, taken as parameters.\<close>

record env =
  get_students_by_group_with_digest :: "int \<Rightarrow> error + int list"
  get_all_group_schedules_today :: "pydate \<Rightarrow> error + (int option \<times> lesson list) list"
  get_user_language :: "int \<Rightarrow> error + string option"
  LEXICON_MSG :: "string \<rightharpoonup> (string \<rightharpoonup> string list)"
  random_index :: "nat \<Rightarrow> nat \<Rightarrow> nat"
  str_format :: "string \<Rightarrow> pyval \<Rightarrow> pyval \<Rightarrow> error + string"
  send_message :: "nat \<Rightarrow> int \<Rightarrow> string \<Rightarrow> error option"

text \<open>The dictionaries appended to \<^verbatim>\<open>result\<close>.\<close>

record check_task =
  lesson :: lesson
  type :: string
  students :: "int list"

text \<open>The local list \<^verbatim>\<open>result\<close> and the records logged so far.\<close>

record matcher_state =
  result :: "check_task list"
  logged :: "log_record list"

definition log_to :: "log_record list \<Rightarrow> matcher_state \<Rightarrow> matcher_state" where
  "log_to rs st = st\<lparr>logged := logged st @ rs\<rparr>"

text \<open>
  How a block of the loop body ends: with \<^verbatim>\<open>continue\<close>, with an exception, or by
  falling through to the statement after it.
\<close>

datatype flow = Continue | Raise error | Fall

text \<open>\<^verbatim>\<open>v[:10]\<close>: a slice of a string or of a list; other values are not subscriptable.\<close>

definition slice_to_10 :: "pyval \<Rightarrow> error + pyval" where
  "slice_to_10 v =
     (case v of
        PStr s \<Rightarrow> Inr (PStr (take 10 s))
      | PList vs \<Rightarrow> Inr (PList (take 10 vs))
      | _ \<Rightarrow> Inl TypeError)"

text \<open>
  The block \<^verbatim>\<open>if not lesson.get(flag): ...\<close>, which the source writes out twice: lines
  66 to 77 with \<^verbatim>\<open>checkIn\<close>, \<^verbatim>\<open>checkinEnd\<close> and \<^verbatim>\<open>"entry"\<close>, lines 79 to 90 with
  \<^verbatim>\<open>checkOut\<close>, \<^verbatim>\<open>checkoutEnd\<close> and \<^verbatim>\<open>"exit"\<close>. The subscript
  \<^verbatim>\<open>lesson[end_key]\<close> raises \<^verbatim>\<open>KeyError\<close> on a missing key, and so does
  \<^verbatim>\<open>lesson['moduleName']\<close> inside the message of the final \<^verbatim>\<open>logger.debug\<close>, which is
  evaluated after the task has been appended.
\<close>

definition window_block ::
  "string \<Rightarrow> string \<Rightarrow> string \<Rightarrow> pytime \<Rightarrow> int list \<Rightarrow> lesson \<Rightarrow> matcher_state
     \<Rightarrow> flow \<times> matcher_state" where
  "window_block flag end_key action now studs l st =
     (if truthy (dict_get l flag) then (Fall, st)
      else (case l end_key of
        None \<Rightarrow> (Raise (KeyError end_key), st)
      | Some t \<Rightarrow>
          (case parse_time t of
             (Inl e, rs) \<Rightarrow> (Raise e, log_to rs st)
           | (Inr None, rs) \<Rightarrow> (Continue, log_to rs st)
           | (Inr (Some end), rs) \<Rightarrow>
               if time_le (window_start end) now \<and> time_le now end
               then (case l ''moduleName'' of
                       None \<Rightarrow>
                         (Raise (KeyError ''moduleName''),
                          (log_to rs st)\<lparr>result := result st @
                             [\<lparr>lesson = l, type = action, students = studs\<rparr>]\<rparr>)
                     | Some _ \<Rightarrow>
                         (Fall,
                          log_to (rs @ [Log DEBUG (''Added '' @ action @ '' check'')])
                            (st\<lparr>result := result st @
                               [\<lparr>lesson = l, type = action, students = studs\<rparr>]\<rparr>)))
               else (Fall, log_to rs st))))"

text \<open>One iteration of \<^verbatim>\<open>for lesson in schedule_data\<close>.\<close>

definition lesson_step ::
  "env \<Rightarrow> int option \<Rightarrow> pytime \<Rightarrow> string \<Rightarrow> lesson \<Rightarrow> matcher_state
     \<Rightarrow> flow \<times> matcher_state" where
  "lesson_step e group_id now today_str l st =
     (if dict_get l ''scheduleStatus'' \<noteq> PStr ''ACTIVE'' then (Continue, st)
      else (case slice_to_10 (case l ''scheduleDate'' of None \<Rightarrow> PStr [] | Some v \<Rightarrow> v) of
        Inl err \<Rightarrow> (Raise err, st)
      | Inr d \<Rightarrow>
          if d \<noteq> PStr today_str then (Continue, st)
          else (case group_id of
            None \<Rightarrow> (Continue, log_to [Log WARNING ''Lesson has no group_id''] st)
          | Some g \<Rightarrow>
              (case get_students_by_group_with_digest e g of
                 Inl err \<Rightarrow> (Raise err, st)
               | Inr studs \<Rightarrow>
                   if studs = []
                   then (Continue, log_to [Log DEBUG ''No students with digest enabled''] st)
                   else (case window_block ''checkIn'' ''checkinEnd'' ''entry'' now studs l st of
                           (Fall, st1) \<Rightarrow>
                             window_block ''checkOut'' ''checkoutEnd'' ''exit'' now studs l st1
                         | other \<Rightarrow> other)))))"

fun for_lessons ::
  "env \<Rightarrow> int option \<Rightarrow> pytime \<Rightarrow> string \<Rightarrow> lesson list \<Rightarrow> matcher_state
     \<Rightarrow> error option \<times> matcher_state" where
  "for_lessons e group_id now today_str [] st = (None, st)"
| "for_lessons e group_id now today_str (l # ls) st =
     (case lesson_step e group_id now today_str l st of
        (Raise err, st') \<Rightarrow> (Some err, st')
      | (_, st') \<Rightarrow> for_lessons e group_id now today_str ls st')"

text \<open>
  The function returns the list (\<open>Inr\<close>) or raises (\<open>Inl\<close>); the second component is
  what it logged on the way.
\<close>

definition get_lessons_to_check ::
  "env \<Rightarrow> int option \<Rightarrow> lesson list \<Rightarrow> datetime
     \<Rightarrow> (error + check_task list) \<times> log_record list" where
  "get_lessons_to_check e group_id schedule_data current_time =
     (case date_minus_one_day (date current_time) of
        Inl err \<Rightarrow> (Inl err, [])
      | Inr yesterday \<Rightarrow>
          (case for_lessons e group_id (time current_time) (isoformat yesterday)
                  schedule_data \<lparr>result = [], logged = []\<rparr> of
             (Some err, st) \<Rightarrow> (Inl err, logged st)
           | (None, st) \<Rightarrow> (Inr (result st), logged st)))"

section \<open>lesson\_check.py: \<^verbatim>\<open>check_lesson_marks\<close>\<close>

text \<open>
  The keys of \<^verbatim>\<open>notified_set\<close> are tuples (user id, module name, action type). A set
  hashes its members: a list is unhashable (\<^verbatim>\<open>TypeError\<close>), and \<^verbatim>\<open>True\<close> and \<^verbatim>\<open>False\<close>
  are the same keys as 1 and 0.
\<close>

type_synonym notification_key = "int \<times> pyval \<times> string"

definition hashable :: "pyval \<Rightarrow> error + pyval" where
  "hashable v =
     (case v of
        PList _ \<Rightarrow> Inl TypeError
      | PBool b \<Rightarrow> Inr (PInt (if b then 1 else 0))
      | _ \<Rightarrow> Inr v)"

text \<open>
  The state of the process as far as the module touches it: the global \<^verbatim>\<open>notified_set\<close>,
  every call of \<^verbatim>\<open>bot.send_message\<close> made so far (the key of the iteration that made
  the call, whose first component is the user the message went to, the text, and whether
  the call returned), the number of calls of \<^verbatim>\<open>random.choice\<close>, and the records logged.
\<close>

record process_state =
  notified_set :: "notification_key set"
  attempts :: "(notification_key \<times> string \<times> bool) list"
  draws :: nat
  emitted :: "log_record list"

definition emit :: "log_record list \<Rightarrow> process_state \<Rightarrow> process_state" where
  "emit rs s = s\<lparr>emitted := emitted s @ rs\<rparr>"

text \<open>\<^verbatim>\<open>v[:-3]\<close>.\<close>

definition slice_minus_3 :: "pyval \<Rightarrow> error + pyval" where
  "slice_minus_3 v =
     (case v of
        PStr s \<Rightarrow> Inr (PStr (take (length s - 3) s))
      | PList vs \<Rightarrow> Inr (PList (take (length vs - 3) vs))
      | _ \<Rightarrow> Inl TypeError)"

text \<open>
  \<^verbatim>\<open>random.choice(LEXICON_MSG[template_key][lang])\<close>: both subscripts raise
  \<^verbatim>\<open>KeyError\<close> on a missing key, and the choice from an empty list raises
  \<^verbatim>\<open>IndexError\<close>. The index drawn is given by the environment from the number of the
  draw and the length of the list.
\<close>

definition choose_template :: "env \<Rightarrow> nat \<Rightarrow> string \<Rightarrow> string \<Rightarrow> error + string" where
  "choose_template e n template_key lang =
     (case LEXICON_MSG e template_key of
        None \<Rightarrow> Inl (KeyError template_key)
      | Some by_lang \<Rightarrow>
          (case by_lang lang of
             None \<Rightarrow> Inl (KeyError lang)
           | Some variants \<Rightarrow>
               if variants = [] then Inl IndexError
               else Inr (variants ! (random_index e n (length variants) mod length variants))))"

text \<open>
  \<^verbatim>\<open>text_template.format(lesson["moduleName"], lesson[time_key][:-3])\<close>; the arguments
  are evaluated from left to right before the call.
\<close>

definition format_text :: "env \<Rightarrow> string \<Rightarrow> string \<Rightarrow> lesson \<Rightarrow> error + string" where
  "format_text e text_template time_key l =
     (case l ''moduleName'' of
        None \<Rightarrow> Inl (KeyError ''moduleName'')
      | Some module_name \<Rightarrow>
          (case l time_key of
             None \<Rightarrow> Inl (KeyError time_key)
           | Some tv \<Rightarrow>
               (case slice_minus_3 tv of
                  Inl err \<Rightarrow> Inl err
                | Inr hm \<Rightarrow> str_format e text_template module_name hm)))"

text \<open>
  The body of \<^verbatim>\<open>for user_id in students\<close> up to the \<^verbatim>\<open>try\<close>: it ends the iteration
  (already notified), raises, or arrives at the send with a key and a text.
\<close>

datatype prepared = Skip | Ready notification_key string

definition prepare ::
  "env \<Rightarrow> lesson \<Rightarrow> string \<Rightarrow> int \<Rightarrow> process_state \<Rightarrow> (error + prepared) \<times> process_state" where
  "prepare e l action_type user_id s =
     (case l ''moduleName'' of
        None \<Rightarrow> (Inl (KeyError ''moduleName''), s)
      | Some module_name \<Rightarrow>
          (case hashable module_name of
             Inl err \<Rightarrow> (Inl err, s)
           | Inr mk \<Rightarrow>
               if (user_id, mk, action_type) \<in> notified_set s
               then (Inr Skip, emit [Log DEBUG ''Already notified user''] s)
               else (case get_user_language e user_id of
                  Inl err \<Rightarrow> (Inl err, s)
                | Inr answer \<Rightarrow>
                    let lang = (case answer of None \<Rightarrow> ''en''
                                | Some x \<Rightarrow> if x = [] then ''en'' else x)
                    in (case choose_template e (draws s)
                               (if action_type = ''entry'' then ''lesson_check_entry''
                                else ''lesson_check_exit'') lang of
                          Inl err \<Rightarrow> (Inl err, s)
                        | Inr text_template \<Rightarrow>
                            (case format_text e text_template
                                    (if action_type = ''entry'' then ''startTime''
                                     else ''endTime'') l of
                               Inl err \<Rightarrow> (Inl err, s\<lparr>draws := draws s + 1\<rparr>)
                             | Inr text \<Rightarrow>
                                 (Inr (Ready (user_id, mk, action_type) text),
                                  s\<lparr>draws := draws s + 1\<rparr>))))))"

text \<open>
  The \<^verbatim>\<open>try\<close> around the send. The call of \<^verbatim>\<open>bot.send_message\<close> is answered by the
  environment from the number of earlier calls, the user and the text. When it returns,
  the success is logged and the key is added; when it raises, the handler logs the failure
  and continues. Neither way does an exception leave the block.
\<close>

definition send_and_record ::
  "env \<Rightarrow> notification_key \<Rightarrow> int \<Rightarrow> string \<Rightarrow> process_state \<Rightarrow> process_state" where
  "send_and_record e key user_id text s =
     (case send_message e (length (attempts s)) user_id text of
        None \<Rightarrow>
          (emit [Log INFO ''Sent notification to user''] s)
            \<lparr>attempts := attempts s @ [(key, text, True)],
             notified_set := insert key (notified_set s)\<rparr>
      | Some err \<Rightarrow>
          (emit [Log ERROR ''Failed to send notification to user''] s)
            \<lparr>attempts := attempts s @ [(key, text, False)]\<rparr>)"

text \<open>One iteration of \<^verbatim>\<open>for user_id in students\<close>; \<open>Some err\<close> is an exception leaving it.\<close>

definition notify ::
  "env \<Rightarrow> lesson \<Rightarrow> string \<Rightarrow> int \<Rightarrow> process_state \<Rightarrow> error option \<times> process_state" where
  "notify e l action_type user_id s =
     (case prepare e l action_type user_id s of
        (Inl err, s1) \<Rightarrow> (Some err, s1)
      | (Inr Skip, s1) \<Rightarrow> (None, s1)
      | (Inr (Ready key text), s1) \<Rightarrow> (None, send_and_record e key user_id text s1))"

fun for_students ::
  "env \<Rightarrow> lesson \<Rightarrow> string \<Rightarrow> int list \<Rightarrow> process_state \<Rightarrow> error option \<times> process_state" where
  "for_students e l action_type [] s = (None, s)"
| "for_students e l action_type (user_id # rest) s =
     (case notify e l action_type user_id s of
        (Some err, s1) \<Rightarrow> (Some err, s1)
      | (None, s1) \<Rightarrow> for_students e l action_type rest s1)"

fun for_entries :: "env \<Rightarrow> check_task list \<Rightarrow> process_state \<Rightarrow> error option \<times> process_state" where
  "for_entries e [] s = (None, s)"
| "for_entries e (entry # rest) s =
     (case for_students e (lesson entry) (type entry) (students entry) s of
        (Some err, s1) \<Rightarrow> (Some err, s1)
      | (None, s1) \<Rightarrow> for_entries e rest s1)"

fun for_groups ::
  "env \<Rightarrow> datetime \<Rightarrow> (int option \<times> lesson list) list \<Rightarrow> process_state
     \<Rightarrow> error option \<times> process_state" where
  "for_groups e now [] s = (None, s)"
| "for_groups e now ((group_id, schedule_data) # rest) s =
     (case get_lessons_to_check e group_id schedule_data now of
        (Inl err, rs) \<Rightarrow> (Some err, emit rs s)
      | (Inr lessons_to_check, rs) \<Rightarrow>
          (case for_entries e lessons_to_check
                  (emit (rs @ [Log INFO ''Found lessons to check'']) s) of
             (Some err, s1) \<Rightarrow> (Some err, s1)
           | (None, s1) \<Rightarrow> for_groups e now rest s1))"

text \<open>
  The body of the outer \<^verbatim>\<open>try\<close>, with \<open>now\<close> and \<open>today\<close> the two readings of the
  clock. The mapping returned for today is the list of its items; the empty list is the
  falsy mapping.
\<close>

definition cycle_body ::
  "env \<Rightarrow> datetime \<Rightarrow> pydate \<Rightarrow> process_state \<Rightarrow> error option \<times> process_state" where
  "cycle_body e now today s =
     (let s1 = emit [Log INFO ''Starting lesson check''] s in
      case get_all_group_schedules_today e today of
        Inl err \<Rightarrow> (Some err, s1)
      | Inr group_schedules \<Rightarrow>
          if group_schedules = [] then (None, emit [Log WARNING ''No schedules found''] s1)
          else for_groups e now group_schedules s1)"

text \<open>
  \<^verbatim>\<open>check_lesson_marks\<close>: the handler of the outer \<^verbatim>\<open>try\<close> logs whatever exception
  the body raised. The first component is what the caller sees raised.
\<close>

definition check_lesson_marks ::
  "env \<Rightarrow> datetime \<Rightarrow> pydate \<Rightarrow> process_state \<Rightarrow> error option \<times> process_state" where
  "check_lesson_marks e now today s =
     (case cycle_body e now today s of
        (Some err, s1) \<Rightarrow> (None, emit [Log ERROR ''Error in check_lesson_marks''] s1)
      | (None, s1) \<Rightarrow> (None, s1))"

text \<open>The life of the process: one cycle after the other, each with its own surroundings.\<close>

fun run_cycles :: "(env \<times> datetime \<times> pydate) list \<Rightarrow> process_state \<Rightarrow> process_state" where
  "run_cycles [] s = s"
| "run_cycles ((e, now, today) # rest) s =
     run_cycles rest (snd (check_lesson_marks e now today s))"

section \<open>lesson\_check.py: \<^verbatim>\<open>setup_lesson_check_scheduler\<close>\<close>

definition REMINDER_TIMES :: "(pytime \<times> string) list" where
  "REMINDER_TIMES =
     [(\<lparr>hour = 9, minute = 35, second = 0, microsecond = 0\<rparr>, ''entry''),
      (\<lparr>hour = 10, minute = 55, second = 0, microsecond = 0\<rparr>, ''exit''),
      (\<lparr>hour = 11, minute = 5, second = 0, microsecond = 0\<rparr>, ''entry''),
      (\<lparr>hour = 12, minute = 25, second = 0, microsecond = 0\<rparr>, ''exit''),
      (\<lparr>hour = 12, minute = 35, second = 0, microsecond = 0\<rparr>, ''entry''),
      (\<lparr>hour = 13, minute = 55, second = 0, microsecond = 0\<rparr>, ''exit''),
      (\<lparr>hour = 13, minute = 5, second = 0, microsecond = 0\<rparr>, ''entry''),
      (\<lparr>hour = 15, minute = 25, second = 0, microsecond = 0\<rparr>, ''exit''),
      (\<lparr>hour = 15, minute = 35, second = 0, microsecond = 0\<rparr>, ''entry''),
      (\<lparr>hour = 16, minute = 55, second = 0, microsecond = 0\<rparr>, ''exit''),
      (\<lparr>hour = 17, minute = 5, second = 0, microsecond = 0\<rparr>, ''entry''),
      (\<lparr>hour = 18, minute = 25, second = 0, microsecond = 0\<rparr>, ''exit'')]"

text \<open>
  The scheduler library, taken as a parameter: the constructor of the scheduler with its
  time zone, the constructor of a cron trigger (hour, minute, days of the week), the
  registration of a job (trigger, job id; an existing job of that id is replaced) and the
  start. Each of them returns or raises.
\<close>

record ('sch, 'tr) scheduler_api =
  AsyncIOScheduler :: "string \<Rightarrow> error + 'sch"
  CronTrigger :: "nat \<Rightarrow> nat \<Rightarrow> string \<Rightarrow> error + 'tr"
  add_job :: "'sch \<Rightarrow> 'tr \<Rightarrow> string \<Rightarrow> error + 'sch"
  start :: "'sch \<Rightarrow> error + 'sch"

text \<open>\<^verbatim>\<open>str(n)\<close> for the hours and minutes of the job ids.\<close>

definition str_nat :: "nat \<Rightarrow> string" where
  "str_nat n = (if n < 10 then [digit_char n] else [digit_char (n div 10), digit_char n])"

definition job_id :: "pytime \<Rightarrow> string \<Rightarrow> string" where
  "job_id t label =
     ''lesson_check_'' @ str_nat (hour t) @ ''_'' @ str_nat (minute t) @ ''_'' @ label"

text \<open>The loop \<^verbatim>\<open>for t, label in REMINDER_TIMES\<close>, with the records it logs.\<close>

fun add_jobs ::
  "('sch, 'tr) scheduler_api \<Rightarrow> (pytime \<times> string) list \<Rightarrow> 'sch \<Rightarrow> log_record list
     \<Rightarrow> (error + 'sch) \<times> log_record list" where
  "add_jobs api [] scheduler rs = (Inr scheduler, rs)"
| "add_jobs api ((t, label) # rest) scheduler rs =
     (case CronTrigger api (hour t) (minute t) ''mon-sat'' of
        Inl err \<Rightarrow> (Inl err, rs)
      | Inr trigger \<Rightarrow>
          (case add_job api scheduler trigger (job_id t label) of
             Inl err \<Rightarrow> (Inl err, rs)
           | Inr scheduler' \<Rightarrow>
               add_jobs api rest scheduler' (rs @ [Log INFO ''Added job''])))"

text \<open>The body of the \<^verbatim>\<open>try\<close>.\<close>

definition setup_body ::
  "('sch, 'tr) scheduler_api \<Rightarrow> (error + 'sch) \<times> log_record list" where
  "setup_body api =
     (case AsyncIOScheduler api ''UTC'' of
        Inl err \<Rightarrow> (Inl err, [])
      | Inr scheduler \<Rightarrow>
          (case add_jobs api REMINDER_TIMES scheduler
                  [Log INFO ''Setting up lesson check scheduler''] of
             (Inl err, rs) \<Rightarrow> (Inl err, rs)
           | (Inr scheduler', rs) \<Rightarrow>
               (case start api scheduler' of
                  Inl err \<Rightarrow> (Inl err, rs)
                | Inr running \<Rightarrow>
                    (Inr running,
                     rs @ [Log INFO ''Lesson check scheduler started successfully'']))))"

text \<open>
  \<^verbatim>\<open>setup_lesson_check_scheduler\<close>: the handler logs the exception and raises it again
  with a bare \<^verbatim>\<open>raise\<close>. \<open>Inl err\<close> is the exception the caller sees, \<open>Inr\<close> the running
  scheduler.
\<close>

definition setup_lesson_check_scheduler ::
  "('sch, 'tr) scheduler_api \<Rightarrow> (error + 'sch) \<times> log_record list" where
  "setup_lesson_check_scheduler api =
     (case setup_body api of
        (Inl err, rs) \<Rightarrow> (Inl err, rs @ [Log ERROR ''Failed to setup lesson check scheduler''])
      | (Inr running, rs) \<Rightarrow> (Inr running, rs))"

section \<open>Derived notions used in the statements\<close>

text \<open>
  The empty state a call starts from, and the three things one run of a block or of an
  iteration yields from it: how it ends, the tasks it appends, the records it logs.
\<close>

definition st0 :: matcher_state where
  "st0 = \<lparr>result = [], logged = []\<rparr>"

definition window_flow :: "string \<Rightarrow> string \<Rightarrow> string \<Rightarrow> pytime \<Rightarrow> int list \<Rightarrow> lesson \<Rightarrow> flow" where
  "window_flow flag ek a now studs l = fst (window_block flag ek a now studs l st0)"

definition window_tasks ::
  "string \<Rightarrow> string \<Rightarrow> string \<Rightarrow> pytime \<Rightarrow> int list \<Rightarrow> lesson \<Rightarrow> check_task list" where
  "window_tasks flag ek a now studs l = result (snd (window_block flag ek a now studs l st0))"

definition window_logs ::
  "string \<Rightarrow> string \<Rightarrow> string \<Rightarrow> pytime \<Rightarrow> int list \<Rightarrow> lesson \<Rightarrow> log_record list" where
  "window_logs flag ek a now studs l = logged (snd (window_block flag ek a now studs l st0))"

definition step_flow :: "env \<Rightarrow> int option \<Rightarrow> pytime \<Rightarrow> string \<Rightarrow> lesson \<Rightarrow> flow" where
  "step_flow e gid now ts l = fst (lesson_step e gid now ts l st0)"

definition step_tasks :: "env \<Rightarrow> int option \<Rightarrow> pytime \<Rightarrow> string \<Rightarrow> lesson \<Rightarrow> check_task list" where
  "step_tasks e gid now ts l = result (snd (lesson_step e gid now ts l st0))"

definition step_logs :: "env \<Rightarrow> int option \<Rightarrow> pytime \<Rightarrow> string \<Rightarrow> lesson \<Rightarrow> log_record list" where
  "step_logs e gid now ts l = logged (snd (lesson_step e gid now ts l st0))"

text \<open>
  The test of a block in one formula: the flag is falsy, the deadline field is a string
  that parses, and the comparison \<^verbatim>\<open>window_start <= now <= deadline\<close> holds.
\<close>

definition window_open :: "string \<Rightarrow> string \<Rightarrow> pytime \<Rightarrow> lesson \<Rightarrow> bool" where
  "window_open flag end_key now l =
     (\<not> truthy (dict_get l flag) \<and>
      (case l end_key of
         Some (PStr s) \<Rightarrow>
           (case strptime_hms s of
              Some d \<Rightarrow> time_le (window_start d) now \<and> time_le now d
            | None \<Rightarrow> False)
       | _ \<Rightarrow> False))"

text \<open>The deadline field of a block that is consulted is a string that does not parse.\<close>

definition unparseable :: "string \<Rightarrow> string \<Rightarrow> lesson \<Rightarrow> bool" where
  "unparseable flag end_key l =
     (\<not> truthy (dict_get l flag) \<and>
      (case l end_key of Some (PStr s) \<Rightarrow> strptime_hms s = None | _ \<Rightarrow> False))"

text \<open>
  The window in the words of the specification: \<open>now\<close> lies in the closed interval from
  five minutes before the deadline \<open>d\<close> to \<open>d\<close>. Both are counted in microseconds from the
  midnight that begins the day of the deadline, so the interval of a deadline before
  00:05:00 begins before that midnight and holds every time of day up to the deadline.
\<close>

definition spec_window :: "pytime \<Rightarrow> pytime \<Rightarrow> bool" where
  "spec_window now d =
     (int (micros d) - 300000000 \<le> int (micros now) \<and> micros now \<le> micros d)"

text \<open>
  In the words of the specification again: \<open>now\<close> is one minute past the deadline \<open>d\<close>,
  or one minute before the start of its window, on the 24-hour clock.
\<close>

definition one_minute_outside :: "pytime \<Rightarrow> pytime \<Rightarrow> bool" where
  "one_minute_outside now d =
     (micros now = (micros d + 60000000) mod 86400000000 \<or>
      micros now = (micros d + 86400000000 - 360000000) mod 86400000000)"

abbreviation entry_task :: "lesson \<Rightarrow> int list \<Rightarrow> check_task" where
  "entry_task l studs \<equiv> \<lparr>lesson = l, type = ''entry'', students = studs\<rparr>"

abbreviation exit_task :: "lesson \<Rightarrow> int list \<Rightarrow> check_task" where
  "exit_task l studs \<equiv> \<lparr>lesson = l, type = ''exit'', students = studs\<rparr>"

text \<open>
  How a later state of the process relates to an earlier one: the calls of
  \<^verbatim>\<open>bot.send_message\<close> have only been added to, and \<^verbatim>\<open>notified_set\<close> is the earlier
  set together with exactly the keys of the added calls that returned.
\<close>

definition grows :: "process_state \<Rightarrow> process_state \<Rightarrow> bool" where
  "grows s s' =
     (\<exists>new. attempts s' = attempts s @ new \<and>
        notified_set s' = notified_set s \<union> {k. \<exists>m. (k, m, True) \<in> set new})"

section \<open>Concrete inputs for the examples\<close>

text \<open>
  One group with one digest-enabled student, and a lesson of 4 March 2024 as the upstream
  system reports it; the other lessons are variants of it.
\<close>

definition campus :: env where
  "campus =
     \<lparr>get_students_by_group_with_digest = (\<lambda>g. Inr [7]),
      get_all_group_schedules_today = (\<lambda>d. Inr []),
      get_user_language = (\<lambda>u. Inr (Some ''en'')),
      LEXICON_MSG = Map.empty,
      random_index = (\<lambda>n k. 0),
      str_format = (\<lambda>t a b. Inr t),
      send_message = (\<lambda>n u t. None)\<rparr>"

definition algebra :: lesson where
  "algebra =
     [''moduleName'' \<mapsto> PStr ''Algebra'',
      ''scheduleStatus'' \<mapsto> PStr ''ACTIVE'',
      ''scheduleDate'' \<mapsto> PStr ''2024-03-04T00:00:00'',
      ''startTime'' \<mapsto> PStr ''09:35:00'',
      ''endTime'' \<mapsto> PStr ''10:55:00'',
      ''checkIn'' \<mapsto> PNone,
      ''checkinEnd'' \<mapsto> PStr ''09:40:00'',
      ''checkOut'' \<mapsto> PNone,
      ''checkoutEnd'' \<mapsto> PStr ''11:00:00'']"

text \<open>The check-in deadline is not a time; the check-out deadline is.\<close>

definition garbled :: lesson where
  "garbled = algebra(''checkinEnd'' \<mapsto> PStr ''soon'')"

text \<open>The check-in deadline is missing.\<close>

definition incomplete :: lesson where
  "incomplete = algebra(''checkinEnd'' := None)"

text \<open>A short lesson: both windows are open at 09:38.\<close>

definition short_lesson :: lesson where
  "short_lesson = algebra(''checkoutEnd'' \<mapsto> PStr ''09:42:00'')"


text \<open>A check-in deadline three minutes after midnight.\<close>

definition night_lesson :: lesson where
  "night_lesson = algebra(''checkinEnd'' \<mapsto> PStr ''00:03:00'')"

definition at_clock :: "nat \<Rightarrow> nat \<Rightarrow> datetime" where
  "at_clock h m =
     \<lparr>date = \<lparr>year = 2024, month = 3, day = 5\<rparr>,
      time = \<lparr>hour = h, minute = m, second = 0, microsecond = 0\<rparr>\<rparr>"

text \<open>
  Two students in the group, one of whom cannot be reached: every send to user 7 raises.
\<close>

definition flaky :: env where
  "flaky =
     \<lparr>get_students_by_group_with_digest = (\<lambda>g. Inr [7, 8]),
      get_all_group_schedules_today = (\<lambda>d. Inr [(Some 1, [algebra])]),
      get_user_language = (\<lambda>u. Inr None),
      LEXICON_MSG =
        [''lesson_check_entry'' \<mapsto> [''en'' \<mapsto> [''Check in now'']],
         ''lesson_check_exit'' \<mapsto> [''en'' \<mapsto> [''Check out now'']]],
      random_index = (\<lambda>n k. n),
      str_format = (\<lambda>t a b. Inr t),
      send_message = (\<lambda>n u t. if u = 7 then Some (Failure ''Forbidden'') else None)\<rparr>"

text \<open>The same surroundings with two groups: the short lesson in one, \<open>algebra\<close> in the other.\<close>

definition flaky_two_groups :: env where
  "flaky_two_groups =
     flaky\<lparr>get_all_group_schedules_today :=
             (\<lambda>d. Inr [(Some 1, [short_lesson]), (Some 2, [algebra])])\<rparr>"

definition fresh :: process_state where
  "fresh = \<lparr>notified_set = {}, attempts = [], draws = 0, emitted = []\<rparr>"

text \<open>
  A scheduler library that counts the jobs it holds and refuses every trigger at 11
  o'clock, and one whose scheduler does not start.
\<close>

definition refusing :: "(nat, nat \<times> nat) scheduler_api" where
  "refusing =
     \<lparr>AsyncIOScheduler = (\<lambda>tz. Inr 0),
      CronTrigger = (\<lambda>h m days. if h = 11 then Inl ValueError else Inr (h, m)),
      add_job = (\<lambda>sch tr ident. Inr (sch + 1)),
      start = (\<lambda>sch. Inr sch)\<rparr>"

definition stalling :: "(nat, nat \<times> nat) scheduler_api" where
  "stalling =
     \<lparr>AsyncIOScheduler = (\<lambda>tz. Inr 0),
      CronTrigger = (\<lambda>h m days. Inr (h, m)),
      add_job = (\<lambda>sch tr ident. Inr (sch + 1)),
      start = (\<lambda>sch. Inl (Failure ''no running event loop''))\<rparr>"

section \<open>Properties of \<^verbatim>\<open>sanitize_schedule_data\<close>\<close>

lemma dict_comprehension_apply:
  "dict_comprehension item keys acc k =
     (if k \<in> set keys \<and> item k \<noteq> None then item k else acc k)"
  by (induction keys arbitrary: acc) (auto split: option.splits)

lemma dict_comprehension_restrict:
  "dict_comprehension item keys Map.empty = item |` set keys"
  by (rule ext) (auto simp: dict_comprehension_apply restrict_map_def)

lemma attendance_fields_not_needed:
  "''checkIn'' \<notin> set needed_fields" "''checkOut'' \<notin> set needed_fields"
  "''checkinEnd'' \<notin> set needed_fields" "''checkoutEnd'' \<notin> set needed_fields"
  by (simp_all add: needed_fields_def)

text \<open>
  Claim C10. For every input list, \<^verbatim>\<open>sanitize_schedule_data\<close> returns a list of the same
  length whose i-th dictionary is the i-th input dictionary restricted to the eight
  whitelisted fields: its keys all lie in the whitelist, the whitelisted fields keep their
  values, and \<^verbatim>\<open>checkIn\<close>, \<^verbatim>\<open>checkOut\<close>, \<^verbatim>\<open>checkinEnd\<close> and \<^verbatim>\<open>checkoutEnd\<close> are
  absent from every output dictionary.
\<close>

theorem sanitize_schedule_data_whitelist:
  "length (sanitize_schedule_data data) = length data \<and>
   sanitize_schedule_data data = map (\<lambda>item. item |` set needed_fields) data \<and>
   (\<forall>d \<in> set (sanitize_schedule_data data).
      dom d \<subseteq> set needed_fields \<and>
      ''checkIn'' \<notin> dom d \<and> ''checkOut'' \<notin> dom d \<and>
      ''checkinEnd'' \<notin> dom d \<and> ''checkoutEnd'' \<notin> dom d)"
proof -
  have eq: "sanitize_schedule_data data = map (\<lambda>item. item |` set needed_fields) data"
    by (simp add: sanitize_schedule_data_def dict_comprehension_restrict)
  have "dom d \<subseteq> set needed_fields" if "d \<in> set (sanitize_schedule_data data)" for d
    using that unfolding eq by (auto simp: restrict_map_def split: if_splits)
  then show ?thesis
    using eq attendance_fields_not_needed by (auto simp del: set_map)
qed

theorem sanitize_schedule_data_whitelist_witness:
  "length (sanitize_schedule_data
     [[''moduleName'' \<mapsto> PStr ''Algebra'', ''checkIn'' \<mapsto> PBool False,
       ''checkinEnd'' \<mapsto> PStr ''09:40:00'']]) = 1
   \<and> dom (hd (sanitize_schedule_data
        [[''moduleName'' \<mapsto> PStr ''Algebra'', ''checkIn'' \<mapsto> PBool False,
          ''checkinEnd'' \<mapsto> PStr ''09:40:00'']])) = {''moduleName''}"
  using sanitize_schedule_data_whitelist
    [of "[[''moduleName'' \<mapsto> PStr ''Algebra'', ''checkIn'' \<mapsto> PBool False,
           ''checkinEnd'' \<mapsto> PStr ''09:40:00'']]"]
  by (auto simp: needed_fields_def restrict_map_def split: if_splits)

section \<open>Times of day and the five-minute window\<close>

lemma strptime_hms_valid:
  "strptime_hms s = Some d \<Longrightarrow> valid_time d \<and> microsecond d = 0"
  by (auto simp: strptime_hms_def valid_time_def split: list.splits option.splits if_splits)

lemma time_le_micros:
  "valid_time a \<Longrightarrow> valid_time b \<Longrightarrow> time_le a b = (micros a \<le> micros b)"
  unfolding time_le_def micros_def valid_time_def by (auto simp: algebra_simps)

lemma micros_bound: "valid_time t \<Longrightarrow> micros t < 86400000000"
  unfolding micros_def valid_time_def by simp

lemma time_of_micros_valid: "n < 86400000000 \<Longrightarrow> valid_time (time_of_micros n)"
  unfolding valid_time_def time_of_micros_def by (simp add: less_mult_imp_div_less)

lemma micros_time_of_micros: "micros (time_of_micros n) = n"
proof -
  define a where "a = n div 1000000"
  define b where "b = a div 60"
  have m: "n div 60000000 = b"
    unfolding a_def b_def by (simp add: div_mult2_eq[symmetric])
  have h: "n div 3600000000 = b div 60"
    unfolding a_def b_def by (simp add: div_mult2_eq[symmetric])
  have "micros (time_of_micros n) = ((b div 60 * 60 + b mod 60) * 60 + a mod 60) * 1000000 + n mod 1000000"
    unfolding micros_def time_of_micros_def by (simp add: m h a_def)
  also have "\<dots> = (b * 60 + a mod 60) * 1000000 + n mod 1000000" by simp
  also have "\<dots> = a * 1000000 + n mod 1000000" unfolding b_def by simp
  also have "\<dots> = n" unfolding a_def by simp
  finally show ?thesis .
qed

lemma window_start_valid: "valid_time d \<Longrightarrow> valid_time (window_start d)"
  using micros_bound[of d] by (auto simp: window_start_def intro!: time_of_micros_valid)

lemma micros_window_start:
  "micros (window_start d) =
     (if 300000000 \<le> micros d then micros d - 300000000 else micros d + 86100000000)"
  by (simp add: window_start_def micros_time_of_micros)

lemma window_micros:
  assumes "valid_time d" "valid_time now"
  shows "(time_le (window_start d) now \<and> time_le now d) =
         (300000000 \<le> micros d \<and> micros d - 300000000 \<le> micros now \<and> micros now \<le> micros d)"
  using assms micros_bound[of now] micros_bound[of d]
  by (auto simp: time_le_micros window_start_valid micros_window_start)

lemma window_wraps:
  assumes "valid_time d" "micros d < 300000000"
  shows "\<not> (time_le (window_start d) now \<and> time_le now d)"
proof -
  have h0: "hour d = 0" using assms unfolding micros_def valid_time_def by auto
  have "micros (window_start d) \<ge> 86100000000" using assms by (simp add: micros_window_start)
  moreover have "valid_time (window_start d)" using assms by (simp add: window_start_valid)
  ultimately have "hour (window_start d) = 23"
    unfolding micros_def valid_time_def by auto
  then show ?thesis using h0 unfolding time_le_def by auto
qed


section \<open>The matcher acts uniformly on its state\<close>

lemma parse_time_cases:
  "parse_time t =
     (case t of
        PStr s \<Rightarrow> (case strptime_hms s of
                     None \<Rightarrow> (Inr None, [Log ERROR ''Failed to parse time''])
                   | Some d \<Rightarrow> (Inr (Some d), []))
      | _ \<Rightarrow> (Inl TypeError, []))"
  by (simp add: parse_time_def strptime_def split: pyval.splits option.splits)


lemma window_block_uniform:
  "window_block flag ek a now studs l st =
     (window_flow flag ek a now studs l,
      st\<lparr>result := result st @ window_tasks flag ek a now studs l,
         logged := logged st @ window_logs flag ek a now studs l\<rparr>)"
  by (simp add: window_flow_def window_tasks_def window_logs_def st0_def
        window_block_def parse_time_cases log_to_def
      split: option.splits pyval.splits)

lemma window_tasks_eq:
  "window_tasks flag ek a now studs l =
     (if window_open flag ek now l then [\<lparr>lesson = l, type = a, students = studs\<rparr>] else [])"
  by (simp add: window_tasks_def st0_def window_block_def window_open_def parse_time_cases log_to_def
           split: option.splits pyval.splits)

lemma window_flow_Continue:
  "(window_flow flag ek a now studs l = Continue) = unparseable flag ek l"
  by (simp add: window_flow_def st0_def window_block_def unparseable_def parse_time_cases
           split: option.splits pyval.splits)

lemma lesson_step_uniform:
  "lesson_step e gid now ts l st =
     (step_flow e gid now ts l,
      st\<lparr>result := result st @ step_tasks e gid now ts l,
         logged := logged st @ step_logs e gid now ts l\<rparr>)"
  by (simp add: step_flow_def step_tasks_def step_logs_def st0_def
        lesson_step_def window_block_uniform log_to_def
      split: option.splits sum.splits flow.splits)


lemma for_lessons_None:
  "for_lessons e gid now ts xs st = (None, st') \<Longrightarrow>
     result st' = result st @ concat (map (step_tasks e gid now ts) xs) \<and>
     (\<forall>l \<in> set xs. \<forall>err. step_flow e gid now ts l \<noteq> Raise err)"
proof (induction xs arbitrary: st)
  case Nil
  then show ?case by simp
next
  case (Cons l ls)
  let ?st1 = "st\<lparr>result := result st @ step_tasks e gid now ts l,
                  logged := logged st @ step_logs e gid now ts l\<rparr>"
  from Cons.prems have nr: "\<forall>err. step_flow e gid now ts l \<noteq> Raise err"
    and rest: "for_lessons e gid now ts ls ?st1 = (None, st')"
    by (auto simp: lesson_step_uniform split: flow.splits)
  from Cons.IH[OF rest] nr show ?case by simp
qed

lemma get_lessons_to_check_Inr:
  assumes "fst (get_lessons_to_check e gid xs ct) = Inr res"
  obtains y where "date_minus_one_day (date ct) = Inr y"
    and "res = concat (map (step_tasks e gid (time ct) (isoformat y)) xs)"
    and "\<And>l err. l \<in> set xs \<Longrightarrow> step_flow e gid (time ct) (isoformat y) l \<noteq> Raise err"
proof -
  from assms obtain y where y: "date_minus_one_day (date ct) = Inr y"
    by (auto simp: get_lessons_to_check_def split: sum.splits)
  obtain r st where f: "for_lessons e gid (time ct) (isoformat y) xs \<lparr>result = [], logged = []\<rparr> = (r, st)"
    by (cases "for_lessons e gid (time ct) (isoformat y) xs \<lparr>result = [], logged = []\<rparr>")
  with assms y have "r = None" "res = result st"
    by (auto simp: get_lessons_to_check_def split: option.splits)
  with for_lessons_None[of e gid "time ct" "isoformat y" xs _ st] f
  have "res = concat (map (step_tasks e gid (time ct) (isoformat y)) xs)"
    and "\<forall>l \<in> set xs. \<forall>err. step_flow e gid (time ct) (isoformat y) l \<noteq> Raise err"
    by auto
  with y that show thesis by blast
qed

text \<open>The tasks of one iteration all carry the lesson of that iteration, which passed both filters.\<close>

lemma isoformat_length: "length (isoformat d) = 10"
  by (simp add: isoformat_def)

lemma step_tasks_lesson:
  "t \<in> set (step_tasks e gid now ts l) \<Longrightarrow> ts \<noteq> [] \<Longrightarrow>
     lesson t = l \<and> l ''scheduleStatus'' = Some (PStr ''ACTIVE'') \<and>
     (\<exists>s. l ''scheduleDate'' = Some (PStr s) \<and> take 10 s = ts)"
  by (auto simp: step_tasks_def st0_def lesson_step_def window_block_uniform window_tasks_eq
        log_to_def dict_get_def slice_to_10_def
      split: option.splits sum.splits flow.splits if_splits pyval.splits)

lemma step_eligible:
  assumes "l ''scheduleStatus'' = Some (PStr ''ACTIVE'')"
    and "l ''scheduleDate'' = Some (PStr ds)" and "take 10 ds = ts"
    and "get_students_by_group_with_digest e g = Inr studs" and "studs \<noteq> []"
  shows "step_tasks e (Some g) now ts l =
           window_tasks ''checkIn'' ''checkinEnd'' ''entry'' now studs l @
           (if window_flow ''checkIn'' ''checkinEnd'' ''entry'' now studs l = Fall
            then window_tasks ''checkOut'' ''checkoutEnd'' ''exit'' now studs l else [])"
    and "step_flow e (Some g) now ts l =
           (if window_flow ''checkIn'' ''checkinEnd'' ''entry'' now studs l = Fall
            then window_flow ''checkOut'' ''checkoutEnd'' ''exit'' now studs l
            else window_flow ''checkIn'' ''checkinEnd'' ''entry'' now studs l)"
  using assms
  by (auto simp: step_tasks_def step_flow_def st0_def lesson_step_def window_block_uniform
        log_to_def dict_get_def slice_to_10_def
      split: flow.splits)

lemma window_flow_cases:
  "window_flow flag ek a now studs l =
     (if truthy (dict_get l flag) then Fall
      else case l ek of
        None \<Rightarrow> Raise (KeyError ek)
      | Some (PStr s) \<Rightarrow>
          (case strptime_hms s of
             None \<Rightarrow> Continue
           | Some d \<Rightarrow>
               if time_le (window_start d) now \<and> time_le now d \<and> l ''moduleName'' = None
               then Raise (KeyError ''moduleName'') else Fall)
      | Some _ \<Rightarrow> Raise TypeError)"
  by (simp add: window_flow_def st0_def window_block_def parse_time_cases
           split: option.splits pyval.splits)

section \<open>Which tasks a call returns\<close>

lemma task_in_result:
  assumes "fst (get_lessons_to_check e gid xs ct) = Inr res"
    and "date_minus_one_day (date ct) = Inr y"
  shows "(t \<in> set res) = (\<exists>l \<in> set xs. t \<in> set (step_tasks e gid (time ct) (isoformat y) l))"
proof -
  from get_lessons_to_check_Inr[OF assms(1)] obtain y' where
    "date_minus_one_day (date ct) = Inr y'"
    "res = concat (map (step_tasks e gid (time ct) (isoformat y')) xs)" by metis
  with assms(2) have "res = concat (map (step_tasks e gid (time ct) (isoformat y)) xs)" by simp
  then show ?thesis by simp
qed

lemma no_raise_in_result:
  assumes "fst (get_lessons_to_check e gid xs ct) = Inr res"
    and "date_minus_one_day (date ct) = Inr y"
    and "l \<in> set xs"
  shows "step_flow e gid (time ct) (isoformat y) l \<noteq> Raise err"
proof -
  from get_lessons_to_check_Inr[OF assms(1)] obtain y' where
    "date_minus_one_day (date ct) = Inr y'"
    "\<And>l err. l \<in> set xs \<Longrightarrow> step_flow e gid (time ct) (isoformat y') l \<noteq> Raise err" by metis
  with assms(2,3) show ?thesis by simp
qed

lemma isoformat_nonempty: "isoformat d \<noteq> []"
  using isoformat_length[of d] by auto

lemma task_of_lesson_in_result:
  assumes "fst (get_lessons_to_check e gid xs ct) = Inr res"
    and "date_minus_one_day (date ct) = Inr y"
    and "lesson t = l"
  shows "(t \<in> set res) = (l \<in> set xs \<and> t \<in> set (step_tasks e gid (time ct) (isoformat y) l))"
proof -
  have "l' = l" if "t \<in> set (step_tasks e gid (time ct) (isoformat y) l')" for l'
    using step_tasks_lesson[OF that isoformat_nonempty] assms(3) by simp
  then show ?thesis unfolding task_in_result[OF assms(1,2)] by blast
qed

lemma window_spec:
  assumes "valid_time now" and "strptime_hms s = Some d" and "300000000 \<le> micros d"
  shows "(time_le (window_start d) now \<and> time_le now d) = spec_window now d"
  using window_micros[of d now] strptime_hms_valid[OF assms(2)] assms(1,3)
  by (auto simp: spec_window_def)

lemma window_open_spec:
  assumes "valid_time now"
    and "\<And>s d. l ek = Some (PStr s) \<Longrightarrow> strptime_hms s = Some d \<Longrightarrow> 300000000 \<le> micros d"
  shows "window_open flag ek now l =
     (\<not> truthy (dict_get l flag) \<and>
      (\<exists>s d. l ek = Some (PStr s) \<and> strptime_hms s = Some d \<and> spec_window now d))"
proof (cases "l ek")
  case None
  then show ?thesis by (simp add: window_open_def)
next
  case (Some v)
  show ?thesis
  proof (cases v)
    case (PStr s)
    show ?thesis
    proof (cases "strptime_hms s")
      case None
      with Some PStr show ?thesis by (simp add: window_open_def)
    next
      case (Some d)
      with \<open>l ek = Some v\<close> PStr have "300000000 \<le> micros d" by (intro assms(2)) simp_all
      from window_spec[OF assms(1) Some this] \<open>l ek = Some v\<close> PStr Some
      show ?thesis by (simp add: window_open_def)
    qed
  qed (use Some in \<open>simp_all add: window_open_def\<close>)
qed

lemma window_flow_Fall:
  assumes "\<And>err. window_flow flag ek a now studs l \<noteq> Raise err"
  shows "(window_flow flag ek a now studs l = Fall) =
         (truthy (dict_get l flag) \<or> (\<exists>s d. l ek = Some (PStr s) \<and> strptime_hms s = Some d))"
proof (cases "window_flow flag ek a now studs l")
  case Continue
  then show ?thesis
    by (auto simp: window_flow_cases split: option.splits pyval.splits if_splits)
next
  case (Raise err)
  with assms[of err] show ?thesis by blast
next
  case Fall
  then show ?thesis
    by (auto simp: window_flow_cases split: option.splits pyval.splits if_splits)
qed


section \<open>The two blocks of an eligible lesson\<close>

lemma eligible_tasks:
  assumes ret: "fst (get_lessons_to_check e (Some g) xs ct) = Inr res"
    and y: "date_minus_one_day (date ct) = Inr y"
    and l: "l \<in> set xs"
    and act: "l ''scheduleStatus'' = Some (PStr ''ACTIVE'')"
    and dt: "l ''scheduleDate'' = Some (PStr ds)" "take 10 ds = isoformat y"
    and st: "get_students_by_group_with_digest e g = Inr studs" "studs \<noteq> []"
  shows "(entry_task l studs \<in> set res) = window_open ''checkIn'' ''checkinEnd'' (time ct) l"
    and "(exit_task l studs \<in> set res) =
           ((truthy (dict_get l ''checkIn'') \<or>
             (\<exists>s d. l ''checkinEnd'' = Some (PStr s) \<and> strptime_hms s = Some d)) \<and>
            window_open ''checkOut'' ''checkoutEnd'' (time ct) l)"
proof -
  let ?now = "time ct" and ?ts = "isoformat y"
  let ?fi = "window_flow ''checkIn'' ''checkinEnd'' ''entry'' ?now studs l"
  note el = step_eligible[OF act dt st, of ?now]
  have nr: "step_flow e (Some g) ?now ?ts l \<noteq> Raise err" for err
    by (rule no_raise_in_result[OF ret y l])
  have nri: "?fi \<noteq> Raise err" for err
    using nr[of err] unfolding el(2) by (auto split: if_splits)
  have fall: "(?fi = Fall) =
      (truthy (dict_get l ''checkIn'') \<or>
       (\<exists>s d. l ''checkinEnd'' = Some (PStr s) \<and> strptime_hms s = Some d))"
    by (rule window_flow_Fall) (rule nri)
  show "(entry_task l studs \<in> set res) = window_open ''checkIn'' ''checkinEnd'' ?now l"
    unfolding task_of_lesson_in_result[OF ret y, of "entry_task l studs" l, simplified] el(1)
    using l by (simp add: window_tasks_eq)
  show "(exit_task l studs \<in> set res) =
           ((truthy (dict_get l ''checkIn'') \<or>
             (\<exists>s d. l ''checkinEnd'' = Some (PStr s) \<and> strptime_hms s = Some d)) \<and>
            window_open ''checkOut'' ''checkoutEnd'' ?now l)"
    unfolding task_of_lesson_in_result[OF ret y, of "exit_task l studs" l, simplified] el(1)
    using l fall by (simp add: window_tasks_eq)
qed

section \<open>The window in the words of the specification\<close>

lemma mod_day_after: "(m::nat) < 86400000000 \<Longrightarrow> (m + 60000000) mod 86400000000 =
   (if m < 86340000000 then m + 60000000 else m + 60000000 - 86400000000)"
  by (simp add: mod_if)

lemma mod_day_before: "(m::nat) < 86400000000 \<Longrightarrow>
   (m + 86400000000 - 360000000) mod 86400000000 =
   (if m < 360000000 then m + 86040000000 else m - 360000000)"
  by (simp add: mod_if)

lemma mod_day_before': "(m::nat) < 86400000000 \<Longrightarrow>
   (86040000000 + m) mod 86400000000 =
   (if m < 360000000 then m + 86040000000 else m - 360000000)"
  by (simp add: mod_if)

lemma one_minute_outside_closed:
  assumes "valid_time d" "one_minute_outside now d"
  shows "\<not> spec_window now d"
  using assms(2) micros_bound[OF assms(1)]
  unfolding one_minute_outside_def spec_window_def
  by (auto simp: mod_day_after mod_day_before mod_day_before' split: if_splits)

text \<open>The equations that evaluate a call on concrete inputs.\<close>

lemmas eval_simps =
  get_lessons_to_check_def lesson_step_def window_block_def parse_time_def strptime_def
  strptime_hms_def is_digit_def digit_value_def log_to_def slice_to_10_def dict_get_def
  date_minus_one_day_def isoformat_def days_in_month_def is_leap_def digit_char_def
  window_start_def micros_def time_of_micros_def time_le_def valid_time_def spec_window_def
  campus_def algebra_def garbled_def incomplete_def short_lesson_def night_lesson_def at_clock_def

section \<open>The set of notified keys only grows\<close>

lemma grows_refl: "grows s s"
  by (simp add: grows_def)

lemma grows_trans:
  assumes "grows s s1" and "grows s1 s2"
  shows "grows s s2"
proof -
  from assms(1) obtain new1 where
    1: "attempts s1 = attempts s @ new1"
       "notified_set s1 = notified_set s \<union> {k. \<exists>m. (k, m, True) \<in> set new1}"
    unfolding grows_def by blast
  from assms(2) obtain new2 where
    2: "attempts s2 = attempts s1 @ new2"
       "notified_set s2 = notified_set s1 \<union> {k. \<exists>m. (k, m, True) \<in> set new2}"
    unfolding grows_def by blast
  have "attempts s2 = attempts s @ (new1 @ new2)" using 1(1) 2(1) by simp
  moreover have "notified_set s2 =
      notified_set s \<union> {k. \<exists>m. (k, m, True) \<in> set (new1 @ new2)}"
    using 1(2) 2(2) by auto
  ultimately show ?thesis unfolding grows_def by blast
qed

lemma grows_emit: "grows s (emit rs s)"
  by (simp add: grows_def emit_def)

lemma grows_subset: "grows s s' \<Longrightarrow> notified_set s \<subseteq> notified_set s'"
  by (auto simp: grows_def)

lemma prepare_state:
  "prepare e l a u s = (r, s1) \<Longrightarrow>
     notified_set s1 = notified_set s \<and> attempts s1 = attempts s"
  by (auto simp: prepare_def emit_def Let_def split: option.splits sum.splits if_splits)

lemma prepare_Ready:
  "prepare e l a u s = (Inr (Ready key text), s1) \<Longrightarrow>
     key \<notin> notified_set s \<and> fst key = u \<and> snd (snd key) = a \<and>
     (\<exists>mn. l ''moduleName'' = Some mn \<and> hashable mn = Inr (fst (snd key)))"
  by (auto simp: prepare_def emit_def Let_def split: option.splits sum.splits if_splits)

lemma send_and_record_grows: "grows s (send_and_record e key u text s)"
proof (cases "send_message e (length (attempts s)) u text")
  case None
  then have "attempts (send_and_record e key u text s) = attempts s @ [(key, text, True)]"
    and "notified_set (send_and_record e key u text s) =
           notified_set s \<union> {k. \<exists>m. (k, m, True) \<in> set [(key, text, True)]}"
    by (auto simp: send_and_record_def emit_def)
  then show ?thesis unfolding grows_def by blast
next
  case (Some err)
  then have "attempts (send_and_record e key u text s) = attempts s @ [(key, text, False)]"
    and "notified_set (send_and_record e key u text s) =
           notified_set s \<union> {k. \<exists>m. (k, m, True) \<in> set [(key, text, False)]}"
    by (auto simp: send_and_record_def emit_def)
  then show ?thesis unfolding grows_def by blast
qed

lemma notify_grows: "grows s (snd (notify e l a u s))"
proof (cases "prepare e l a u s")
  case (Pair r s1)
  then have g1: "grows s s1"
    using prepare_state[OF Pair] by (simp add: grows_def)
  show ?thesis
  proof (cases r)
    case (Inl err)
    with Pair g1 show ?thesis by (simp add: notify_def)
  next
    case (Inr p)
    show ?thesis
    proof (cases p)
      case Skip
      with Pair Inr g1 show ?thesis by (simp add: notify_def)
    next
      case (Ready key msg)
      have "grows s1 (send_and_record e key u msg s1)" by (rule send_and_record_grows)
      with g1 Pair Inr Ready show ?thesis
        by (auto simp: notify_def intro: grows_trans)
    qed
  qed
qed

lemma for_students_grows: "grows s (snd (for_students e l a us s))"
proof (induction us arbitrary: s)
  case Nil
  show ?case by (simp add: grows_refl)
next
  case (Cons u us)
  obtain r s1 where n: "notify e l a u s = (r, s1)" by (cases "notify e l a u s")
  with notify_grows[of s e l a u] have g: "grows s s1" by simp
  show ?case
  proof (cases r)
    case None
    with n g Cons.IH[of s1] show ?thesis by (auto intro: grows_trans)
  next
    case (Some err)
    with n g show ?thesis by simp
  qed
qed

lemma for_entries_grows: "grows s (snd (for_entries e ts s))"
proof (induction ts arbitrary: s)
  case Nil
  show ?case by (simp add: grows_refl)
next
  case (Cons t ts)
  obtain r s1 where n: "for_students e (lesson t) (type t) (students t) s = (r, s1)"
    by (cases "for_students e (lesson t) (type t) (students t) s")
  with for_students_grows[of s e "lesson t" "type t" "students t"] have g: "grows s s1" by simp
  show ?case
  proof (cases r)
    case None
    with n g Cons.IH[of s1] show ?thesis by (auto intro: grows_trans)
  next
    case (Some err)
    with n g show ?thesis by simp
  qed
qed

lemma for_groups_grows: "grows s (snd (for_groups e now gs s))"
proof (induction gs arbitrary: s)
  case Nil
  show ?case by (simp add: grows_refl)
next
  case (Cons gr gs)
  obtain gid sched where gr: "gr = (gid, sched)" by (cases gr)
  obtain r rs where m: "get_lessons_to_check e gid sched now = (r, rs)"
    by (cases "get_lessons_to_check e gid sched now")
  show ?case
  proof (cases r)
    case (Inl err)
    with gr m show ?thesis by (simp add: grows_emit)
  next
    case (Inr ts)
    let ?s0 = "emit (rs @ [Log INFO ''Found lessons to check'']) s"
    obtain r1 s1 where n: "for_entries e ts ?s0 = (r1, s1)" by (cases "for_entries e ts ?s0")
    with for_entries_grows[of ?s0 e ts] grows_emit[of s] have g: "grows s s1"
      by (auto intro: grows_trans)
    show ?thesis
    proof (cases r1)
      case None
      with gr m Inr n g Cons.IH[of s1] show ?thesis by (auto intro: grows_trans)
    next
      case (Some err)
      with gr m Inr n g show ?thesis by simp
    qed
  qed
qed

lemma cycle_body_grows: "grows s (snd (cycle_body e now today s))"
proof -
  let ?s1 = "emit [Log INFO ''Starting lesson check''] s"
  have a: "grows s ?s1" by (rule grows_emit)
  have b: "grows s (emit rs ?s1)" for rs using a grows_emit[of ?s1 rs] by (rule grows_trans)
  have c: "grows s (snd (for_groups e now gs ?s1))" for gs
    using a for_groups_grows[of ?s1 e now gs] by (rule grows_trans)
  show ?thesis
    using a b c by (simp add: cycle_body_def Let_def split: sum.splits)
qed

lemma check_lesson_marks_grows: "grows s (snd (check_lesson_marks e now today s))"
proof -
  obtain r s1 where b: "cycle_body e now today s = (r, s1)" by (cases "cycle_body e now today s")
  with cycle_body_grows[of s e now today] have g: "grows s s1" by simp
  from g grows_emit[of s1] have "grows s (emit rs s1)" for rs by (rule grows_trans)
  with b g show ?thesis by (simp add: check_lesson_marks_def split: option.splits)
qed

lemma check_lesson_marks_returns: "fst (check_lesson_marks e now today s) = None"
  by (simp add: check_lesson_marks_def split: prod.splits option.splits)

lemma run_cycles_grows: "grows s (run_cycles cs s)"
proof (induction cs arbitrary: s)
  case Nil
  show ?case by (simp add: grows_refl)
next
  case (Cons c cs)
  obtain e now today where c: "c = (e, now, today)" by (cases c)
  from check_lesson_marks_grows[of s e now today] Cons.IH[of "snd (check_lesson_marks e now today s)"]
  show ?case unfolding c by (auto intro: grows_trans)
qed

text \<open>Nothing before the send looks at \<^verbatim>\<open>bot.send_message\<close>.\<close>

lemma prepare_ignores_sends:
  "get_user_language (e\<lparr>send_message := f\<rparr>) = get_user_language e"
  "choose_template (e\<lparr>send_message := f\<rparr>) = choose_template e"
  "format_text (e\<lparr>send_message := f\<rparr>) = format_text e"
  by (simp_all add: choose_template_def format_text_def fun_eq_iff
        cong: option.case_cong sum.case_cong if_cong)

text \<open>The equations that evaluate a cycle on concrete inputs.\<close>

lemmas cycle_simps =
  check_lesson_marks_def cycle_body_def notify_def prepare_def send_and_record_def
  choose_template_def format_text_def slice_minus_3_def hashable_def emit_def
  flaky_def fresh_def

section \<open>The registration loop\<close>

lemma add_jobs_logs_irrelevant:
  "fst (add_jobs api ts sch rs) = fst (add_jobs api ts sch rs')"
proof (induction ts arbitrary: sch rs rs')
  case Nil
  show ?case by simp
next
  case (Cons x ts)
  obtain t label where x: "x = (t, label)" by (cases x)
  show ?case
  proof (cases "CronTrigger api (hour t) (minute t) ''mon-sat''")
    case (Inl err)
    with x show ?thesis by simp
  next
    case (Inr trigger)
    show ?thesis
    proof (cases "add_job api sch trigger (job_id t label)")
      case (Inl err)
      with x Inr show ?thesis by simp
    next
      case (Inr sch')
      from Cons.IH[of sch' "rs @ [Log INFO ''Added job'']" "rs' @ [Log INFO ''Added job'']"]
        x \<open>CronTrigger api (hour t) (minute t) ''mon-sat'' = Inr trigger\<close> Inr
      show ?thesis by simp
    qed
  qed
qed

lemma add_jobs_append:
  "fst (add_jobs api (pre @ post) sch rs) =
     (case fst (add_jobs api pre sch rs) of
        Inl err \<Rightarrow> Inl err
      | Inr sch' \<Rightarrow> fst (add_jobs api post sch' rs))"
proof (induction api pre sch rs rule: add_jobs.induct)
  case (1 api scheduler rs)
  show ?case by simp
next
  case (2 api t label rest scheduler rs)
  show ?case
  proof (cases "CronTrigger api (hour t) (minute t) ''mon-sat''")
    case (Inl err)
    then show ?thesis by simp
  next
    case (Inr trigger)
    show ?thesis
    proof (cases "add_job api scheduler trigger (job_id t label)")
      case (Inl err)
      with Inr show ?thesis by simp
    next
      case (Inr scheduler')
      have "fst (add_jobs api post s (rs @ [Log INFO ''Added job''])) = fst (add_jobs api post s rs)" for s
        by (rule add_jobs_logs_irrelevant)
      moreover have "fst (add_jobs api rest scheduler' (rs @ [Log INFO ''Added job''])) =
          fst (add_jobs api rest scheduler' rs)"
        by (rule add_jobs_logs_irrelevant)
      ultimately show ?thesis
        using \<open>CronTrigger api (hour t) (minute t) ''mon-sat'' = Inr trigger\<close> Inr
          "2.IH"[of trigger scheduler']
        by (simp split: sum.splits)
    qed
  qed
qed

section \<open>Claims about \<^verbatim>\<open>get_lessons_to_check\<close>\<close>

text \<open>
  Claim C1, as amended. Let a call of \<^verbatim>\<open>get_lessons_to_check\<close> return, and let \<open>l\<close> be
  an ACTIVE lesson of the schedule dated yesterday whose group has at least one
  digest-enabled student. Deadlines before 00:05:00 are left out: the statement is about
  lessons whose deadlines, where they parse, are not earlier than that. Then the result
  holds an entry task for \<open>l\<close> exactly when \<^verbatim>\<open>checkIn\<close> is falsy and \<^verbatim>\<open>checkinEnd\<close> parses
  to a deadline \<open>d\<close> with the time of day of \<open>now\<close> in the closed interval from \<open>d\<close> minus
  five minutes to \<open>d\<close>. It holds an exit task exactly when, in addition to the same
  condition on \<^verbatim>\<open>checkOut\<close> and \<^verbatim>\<open>checkoutEnd\<close>, the entry block did not skip the lesson:
  \<^verbatim>\<open>checkIn\<close> is truthy or \<^verbatim>\<open>checkinEnd\<close> parses. One minute outside either bound of a
  window no task of that window is in the result.
\<close>

theorem entry_and_exit_tasks_exact:
  assumes "fst (get_lessons_to_check e (Some g) schedule_data current_time) = Inr res"
    and "valid_time (time current_time)"
    and "date_minus_one_day (date current_time) = Inr yesterday"
    and "l \<in> set schedule_data"
    and "l ''scheduleStatus'' = Some (PStr ''ACTIVE'')"
    and "l ''scheduleDate'' = Some (PStr ds)" and "take 10 ds = isoformat yesterday"
    and "get_students_by_group_with_digest e g = Inr studs" and "studs \<noteq> []"
    and "\<And>s d. l ''checkinEnd'' = Some (PStr s) \<Longrightarrow> strptime_hms s = Some d
           \<Longrightarrow> 300000000 \<le> micros d"
    and "\<And>s d. l ''checkoutEnd'' = Some (PStr s) \<Longrightarrow> strptime_hms s = Some d
           \<Longrightarrow> 300000000 \<le> micros d"
  shows
    "(entry_task l studs \<in> set res) =
       (\<not> truthy (dict_get l ''checkIn'') \<and>
        (\<exists>s d. l ''checkinEnd'' = Some (PStr s) \<and> strptime_hms s = Some d \<and>
               spec_window (time current_time) d)) \<and>
     (exit_task l studs \<in> set res) =
       ((truthy (dict_get l ''checkIn'') \<or>
         (\<exists>s d. l ''checkinEnd'' = Some (PStr s) \<and> strptime_hms s = Some d)) \<and>
        \<not> truthy (dict_get l ''checkOut'') \<and>
        (\<exists>s d. l ''checkoutEnd'' = Some (PStr s) \<and> strptime_hms s = Some d \<and>
               spec_window (time current_time) d)) \<and>
     (\<forall>s d. l ''checkinEnd'' = Some (PStr s) \<and> strptime_hms s = Some d \<and>
            one_minute_outside (time current_time) d
            \<longrightarrow> entry_task l studs \<notin> set res) \<and>
     (\<forall>s d. l ''checkoutEnd'' = Some (PStr s) \<and> strptime_hms s = Some d \<and>
            one_minute_outside (time current_time) d
            \<longrightarrow> exit_task l studs \<notin> set res)"
proof -
  note et = eligible_tasks[OF assms(1) assms(3) assms(4) assms(5) assms(6) assms(7) assms(8) assms(9)]
  note wi = window_open_spec[OF assms(2) assms(10), where flag = "''checkIn''"]
  note wo = window_open_spec[OF assms(2) assms(11), where flag = "''checkOut''"]
  have c1: "(entry_task l studs \<in> set res) =
       (\<not> truthy (dict_get l ''checkIn'') \<and>
        (\<exists>s d. l ''checkinEnd'' = Some (PStr s) \<and> strptime_hms s = Some d \<and>
               spec_window (time current_time) d))"
    using et(1) wi by simp
  have c2: "(exit_task l studs \<in> set res) =
       ((truthy (dict_get l ''checkIn'') \<or>
         (\<exists>s d. l ''checkinEnd'' = Some (PStr s) \<and> strptime_hms s = Some d)) \<and>
        \<not> truthy (dict_get l ''checkOut'') \<and>
        (\<exists>s d. l ''checkoutEnd'' = Some (PStr s) \<and> strptime_hms s = Some d \<and>
               spec_window (time current_time) d))"
    using et(2) wo by simp
  have out: "\<not> spec_window (time current_time) d"
    if "strptime_hms s = Some d" "one_minute_outside (time current_time) d" for s d
    using one_minute_outside_closed[of d "time current_time"] strptime_hms_valid[OF that(1)] that(2)
    by blast
  have c3: "\<forall>s d. l ''checkinEnd'' = Some (PStr s) \<and> strptime_hms s = Some d \<and>
            one_minute_outside (time current_time) d
            \<longrightarrow> entry_task l studs \<notin> set res"
    unfolding c1 using out by auto
  have c4: "\<forall>s d. l ''checkoutEnd'' = Some (PStr s) \<and> strptime_hms s = Some d \<and>
            one_minute_outside (time current_time) d
            \<longrightarrow> exit_task l studs \<notin> set res"
    unfolding c2 using out by auto
  from c1 c2 c3 c4 show ?thesis by blast
qed

text \<open>
  At 09:38 the lesson with check-in deadline 09:40:00 and check-out deadline 11:00:00 gets
  its entry task and no exit task.
\<close>

theorem entry_and_exit_tasks_exact_witness:
  "fst (get_lessons_to_check campus (Some 1) [algebra] (at_clock 9 38)) =
     Inr [entry_task algebra [7]] \<and>
   entry_task algebra [7] \<in> set [entry_task algebra [7]] \<and>
   exit_task algebra [7] \<notin> set [entry_task algebra [7]] \<and>
   strptime_hms ''09:40:00'' = Some \<lparr>hour = 9, minute = 40, second = 0, microsecond = 0\<rparr> \<and>
   spec_window (time (at_clock 9 38)) \<lparr>hour = 9, minute = 40, second = 0, microsecond = 0\<rparr>"
proof -
  have h1: "fst (get_lessons_to_check campus (Some 1) [algebra] (at_clock 9 38)) =
     Inr [entry_task algebra [7]]" by (simp add: eval_simps)
  have h2: "valid_time (time (at_clock 9 38))" by (simp add: eval_simps)
  have h3: "date_minus_one_day (date (at_clock 9 38)) = Inr \<lparr>year = 2024, month = 3, day = 4\<rparr>"
    by (simp add: eval_simps)
  have h4: "algebra \<in> set [algebra]" by simp
  have h5: "algebra ''scheduleStatus'' = Some (PStr ''ACTIVE'')" by (simp add: eval_simps)
  have h6: "algebra ''scheduleDate'' = Some (PStr ''2024-03-04T00:00:00'')" by (simp add: eval_simps)
  have h7: "take 10 ''2024-03-04T00:00:00'' = isoformat \<lparr>year = 2024, month = 3, day = 4\<rparr>"
    by (simp add: eval_simps)
  have h8: "get_students_by_group_with_digest campus 1 = Inr [7]" by (simp add: eval_simps)
  have h9: "[7::int] \<noteq> []" by simp
  have h10: "300000000 \<le> micros d"
    if "algebra ''checkinEnd'' = Some (PStr s)" "strptime_hms s = Some d" for s d
    using that by (auto simp: eval_simps)
  have h11: "300000000 \<le> micros d"
    if "algebra ''checkoutEnd'' = Some (PStr s)" "strptime_hms s = Some d" for s d
    using that by (auto simp: eval_simps)
  have p: "strptime_hms ''09:40:00'' = Some \<lparr>hour = 9, minute = 40, second = 0, microsecond = 0\<rparr>"
    by (simp add: eval_simps)
  have w: "spec_window (time (at_clock 9 38)) \<lparr>hour = 9, minute = 40, second = 0, microsecond = 0\<rparr>"
    by (simp add: eval_simps)
  from entry_and_exit_tasks_exact[OF h1 h2 h3 h4 h5 h6 h7 h8 h9 h10 h11] h1 p w
  show ?thesis by simp
qed

text \<open>
  Claim C1 as first stated promises an exit task whenever \<^verbatim>\<open>checkOut\<close> is falsy and
  \<open>now\<close> lies in the exit window. The lesson \<open>garbled\<close> is ACTIVE, dated yesterday, has a
  digest-enabled student, no check-out yet and the check-out deadline 11:00:00; at 10:58
  the call returns no task at all, because the check-in deadline does not parse and the
  \<^verbatim>\<open>continue\<close> of the entry block leaves the iteration before the exit block is reached.
\<close>

theorem exit_task_lost_counterexample:
  "garbled ''scheduleStatus'' = Some (PStr ''ACTIVE'') \<and>
   garbled ''scheduleDate'' = Some (PStr ''2024-03-04T00:00:00'') \<and>
   date_minus_one_day (date (at_clock 10 58)) = Inr \<lparr>year = 2024, month = 3, day = 4\<rparr> \<and>
   take 10 ''2024-03-04T00:00:00'' = isoformat \<lparr>year = 2024, month = 3, day = 4\<rparr> \<and>
   get_students_by_group_with_digest campus 1 = Inr [7] \<and>
   \<not> truthy (dict_get garbled ''checkOut'') \<and>
   garbled ''checkoutEnd'' = Some (PStr ''11:00:00'') \<and>
   strptime_hms ''11:00:00'' = Some \<lparr>hour = 11, minute = 0, second = 0, microsecond = 0\<rparr> \<and>
   spec_window (time (at_clock 10 58)) \<lparr>hour = 11, minute = 0, second = 0, microsecond = 0\<rparr> \<and>
   get_lessons_to_check campus (Some 1) [garbled] (at_clock 10 58) =
     (Inr [], [Log ERROR ''Failed to parse time''])"
  by (simp add: eval_simps)

text \<open>
  Claim C5. Whatever the schedule list and the timestamp, every task a call returns is
  for a lesson of the list whose \<^verbatim>\<open>scheduleStatus\<close> is the string \<^verbatim>\<open>ACTIVE\<close> and whose
  \<^verbatim>\<open>scheduleDate\<close> is a string with the ISO date of the day before the date of
  \<^verbatim>\<open>current_time\<close> as its first ten characters. So no task is ever produced for a lesson
  with another status or another date.
\<close>

theorem tasks_only_for_active_lessons_of_yesterday:
  assumes "fst (get_lessons_to_check e group_id schedule_data current_time) = Inr res"
    and "t \<in> set res"
  shows "lesson t \<in> set schedule_data \<and>
         lesson t ''scheduleStatus'' = Some (PStr ''ACTIVE'') \<and>
         (\<exists>yesterday s. date_minus_one_day (date current_time) = Inr yesterday \<and>
            lesson t ''scheduleDate'' = Some (PStr s) \<and> take 10 s = isoformat yesterday)"
proof -
  from get_lessons_to_check_Inr[OF assms(1)] obtain y where
    y: "date_minus_one_day (date current_time) = Inr y" by metis
  from assms(2) task_in_result[OF assms(1) y, of t] obtain l where
    l: "l \<in> set schedule_data" "t \<in> set (step_tasks e group_id (time current_time) (isoformat y) l)"
    by blast
  from step_tasks_lesson[OF l(2) isoformat_nonempty] l(1) y show ?thesis by auto
qed

text \<open>The task returned for \<open>algebra\<close> on 5 March 2024 is for an ACTIVE lesson of 4 March.\<close>

theorem tasks_only_for_active_lessons_of_yesterday_witness:
  "fst (get_lessons_to_check campus (Some 1) [algebra] (at_clock 9 38)) =
     Inr [entry_task algebra [7]] \<and>
   algebra ''scheduleStatus'' = Some (PStr ''ACTIVE'') \<and>
   date_minus_one_day (date (at_clock 9 38)) = Inr \<lparr>year = 2024, month = 3, day = 4\<rparr> \<and>
   isoformat \<lparr>year = 2024, month = 3, day = 4\<rparr> = ''2024-03-04''"
proof -
  have h1: "fst (get_lessons_to_check campus (Some 1) [algebra] (at_clock 9 38)) =
     Inr [entry_task algebra [7]]" by (simp add: eval_simps)
  have h2: "entry_task algebra [7] \<in> set [entry_task algebra [7]]" by simp
  from tasks_only_for_active_lessons_of_yesterday[OF h1 h2] h1
  show ?thesis by (simp add: eval_simps)
qed

text \<open>
  Claim C9. The comparison is made on times of day. For a deadline that parses to a time
  before 00:05:00 the window start lies at or after 23:55:00 of the evening before, no
  time of day satisfies \<^verbatim>\<open>window_start <= now <= deadline\<close>, and no call, at whatever
  time, returns an entry task for a lesson with such a check-in deadline or an exit task
  for a lesson with such a check-out deadline.
\<close>

theorem deadline_before_0005_never_matches:
  assumes "strptime_hms s = Some d" and "micros d < 300000000"
  shows "86100000000 \<le> micros (window_start d) \<and>
         \<not> (time_le (window_start d) now \<and> time_le now d) \<and>
         (fst (get_lessons_to_check e group_id schedule_data current_time) = Inr res \<longrightarrow>
            (l ''checkinEnd'' = Some (PStr s) \<longrightarrow> entry_task l studs \<notin> set res) \<and>
            (l ''checkoutEnd'' = Some (PStr s) \<longrightarrow> exit_task l studs \<notin> set res))"
proof -
  have v: "valid_time d" using strptime_hms_valid[OF assms(1)] by simp
  have a: "86100000000 \<le> micros (window_start d)"
    using assms(2) by (simp add: micros_window_start)
  have b: "\<not> (time_le (window_start d) t \<and> time_le t d)" for t
    by (rule window_wraps[OF v assms(2)])
  have closed: "\<not> window_open flag ek t l" if "l ek = Some (PStr s)" for flag ek t
    using that assms(1) b[of t] by (simp add: window_open_def)
  have c: "(l ''checkinEnd'' = Some (PStr s) \<longrightarrow> entry_task l studs \<notin> set res) \<and>
           (l ''checkoutEnd'' = Some (PStr s) \<longrightarrow> exit_task l studs \<notin> set res)"
    if ret: "fst (get_lessons_to_check e group_id schedule_data current_time) = Inr res"
  proof -
    from get_lessons_to_check_Inr[OF ret] obtain y where
      y: "date_minus_one_day (date current_time) = Inr y" by metis
    have "t \<notin> set (step_tasks e group_id (time current_time) (isoformat y) l)"
      if "t = entry_task l studs \<and> l ''checkinEnd'' = Some (PStr s) \<or>
          t = exit_task l studs \<and> l ''checkoutEnd'' = Some (PStr s)" for t
      using that closed
      by (auto simp: step_tasks_def st0_def lesson_step_def window_block_uniform window_tasks_eq
            log_to_def split: option.splits sum.splits flow.splits if_splits)
    then show ?thesis
      using task_of_lesson_in_result[OF ret y, of _ l] by auto
  qed
  from a b c show ?thesis by blast
qed

text \<open>
  A check-in deadline of 00:03:00: the window would start at 23:58:00, and at 00:01 the
  call returns nothing.
\<close>

theorem deadline_before_0005_never_matches_witness:
  "strptime_hms ''00:03:00'' = Some \<lparr>hour = 0, minute = 3, second = 0, microsecond = 0\<rparr> \<and>
   window_start \<lparr>hour = 0, minute = 3, second = 0, microsecond = 0\<rparr> =
     \<lparr>hour = 23, minute = 58, second = 0, microsecond = 0\<rparr> \<and>
   fst (get_lessons_to_check campus (Some 1) [night_lesson] (at_clock 0 1)) = Inr [] \<and>
   night_lesson ''checkinEnd'' = Some (PStr ''00:03:00'') \<and>
   entry_task night_lesson [7] \<notin> set []"
proof -
  have h1: "strptime_hms ''00:03:00'' = Some \<lparr>hour = 0, minute = 3, second = 0, microsecond = 0\<rparr>"
    by (simp add: eval_simps)
  have h2: "micros \<lparr>hour = 0, minute = 3, second = 0, microsecond = 0\<rparr> < 300000000"
    by (simp add: eval_simps)
  have r: "fst (get_lessons_to_check campus (Some 1) [night_lesson] (at_clock 0 1)) = Inr []"
    by (simp add: eval_simps)
  from deadline_before_0005_never_matches[OF h1 h2, of "time (at_clock 0 1)" campus "Some 1"
      "[night_lesson]" "at_clock 0 1" "[]" night_lesson "[7]"] h1 r
  show ?thesis by (simp add: eval_simps)
qed




text \<open>
  A deadline that is a string but not a time is handled as the specification asks: the
  lesson is skipped, the failure is logged at level ERROR, and the loop goes on with the
  remaining lessons.
\<close>

lemma window_block_unparseable:
  "unparseable flag ek l \<Longrightarrow>
     window_block flag ek a now studs l st =
       (Continue, log_to [Log ERROR ''Failed to parse time''] st)"
  by (auto simp: window_block_def unparseable_def parse_time_cases
      split: option.splits pyval.splits)

lemma window_block_truthy:
  "truthy (dict_get l flag) \<Longrightarrow> window_block flag ek a now studs l st = (Fall, st)"
  by (simp add: window_block_def)

lemma lesson_step_eligible:
  assumes "l ''scheduleStatus'' = Some (PStr ''ACTIVE'')"
    and "l ''scheduleDate'' = Some (PStr ds)" and "take 10 ds = ts"
    and "get_students_by_group_with_digest e g = Inr studs" and "studs \<noteq> []"
  shows "lesson_step e (Some g) now ts l st =
     (case window_block ''checkIn'' ''checkinEnd'' ''entry'' now studs l st of
        (Fall, st1) \<Rightarrow> window_block ''checkOut'' ''checkoutEnd'' ''exit'' now studs l st1
      | other \<Rightarrow> other)"
  using assms by (simp add: lesson_step_def dict_get_def slice_to_10_def)

lemma unparseable_lesson_skipped:
  assumes "l ''scheduleStatus'' = Some (PStr ''ACTIVE'')"
    and "l ''scheduleDate'' = Some (PStr ds)" and "take 10 ds = ts"
    and "get_students_by_group_with_digest e g = Inr studs" and "studs \<noteq> []"
    and "unparseable ''checkIn'' ''checkinEnd'' l \<or>
         truthy (dict_get l ''checkIn'') \<and> unparseable ''checkOut'' ''checkoutEnd'' l"
  shows "for_lessons e (Some g) now ts (l # ls) st =
         for_lessons e (Some g) now ts ls (log_to [Log ERROR ''Failed to parse time''] st)"
proof -
  have "lesson_step e (Some g) now ts l st =
          (Continue, log_to [Log ERROR ''Failed to parse time''] st)"
    unfolding lesson_step_eligible[OF assms(1-5)]
    using assms(6) by (auto simp: window_block_unparseable window_block_truthy)
  then show ?thesis by simp
qed

text \<open>
  Claim C3 fails on the code where the deadline field is missing. The first lesson of the
  schedule below has no \<^verbatim>\<open>checkinEnd\<close>; the subscript \<^verbatim>\<open>lesson["checkinEnd"]\<close> raises
  \<^verbatim>\<open>KeyError\<close>, nothing is logged by the function, and the call ends without a result,
  although the second lesson alone yields a task.
\<close>

theorem missing_deadline_aborts_batch:
  "incomplete ''checkinEnd'' = None \<and>
   get_lessons_to_check campus (Some 1) [incomplete, algebra] (at_clock 9 38) =
     (Inl (KeyError ''checkinEnd''), []) \<and>
   get_lessons_to_check campus (Some 1) [algebra] (at_clock 9 38) =
     (Inr [entry_task algebra [7]], [Log DEBUG ''Added entry check''])"
  by (simp add: eval_simps)

section \<open>Claims about \<^verbatim>\<open>check_lesson_marks\<close>\<close>

text \<open>
  Claim C7. If \<^verbatim>\<open>get_all_group_schedules_today\<close> returns the empty mapping,
  \<^verbatim>\<open>check_lesson_marks\<close> logs its start and one WARNING and returns: nothing is raised
  to the caller, \<^verbatim>\<open>bot.send_message\<close> is not called, and \<^verbatim>\<open>notified_set\<close> is unchanged.
\<close>

theorem empty_schedules_end_cycle:
  assumes "get_all_group_schedules_today e today = Inr []"
  shows "check_lesson_marks e now today s =
           (None, s\<lparr>emitted := emitted s @
              [Log INFO ''Starting lesson check'', Log WARNING ''No schedules found'']\<rparr>) \<and>
         attempts (snd (check_lesson_marks e now today s)) = attempts s \<and>
         notified_set (snd (check_lesson_marks e now today s)) = notified_set s"
  using assms by (simp add: check_lesson_marks_def cycle_body_def emit_def)

text \<open>A cycle that finds no schedules for 5 March 2024.\<close>

theorem empty_schedules_end_cycle_witness:
  "get_all_group_schedules_today campus \<lparr>year = 2024, month = 3, day = 5\<rparr> = Inr [] \<and>
   check_lesson_marks campus (at_clock 9 35) \<lparr>year = 2024, month = 3, day = 5\<rparr> fresh =
     (None, \<lparr>notified_set = {}, attempts = [], draws = 0,
             emitted = [Log INFO ''Starting lesson check'', Log WARNING ''No schedules found'']\<rparr>)"
proof -
  have h: "get_all_group_schedules_today campus \<lparr>year = 2024, month = 3, day = 5\<rparr> = Inr []"
    by (simp add: campus_def)
  from empty_schedules_end_cycle[OF h, of "at_clock 9 35" fresh] h
  show ?thesis by (simp add: fresh_def)
qed

text \<open>
  Claim C6. A key \<open>k\<close> that is in \<^verbatim>\<open>notified_set\<close> stays in it: through one iteration
  of the student loop, through a cycle, and through any number of cycles of the process.
  The membership test itself leaves the set as it was, so asking twice gives the same
  answer. And after any number of cycles the iteration for the key's user, lesson and
  action ends at the test as already notified, without a call of \<^verbatim>\<open>bot.send_message\<close>.
\<close>

theorem notified_keys_stay_notified:
  assumes "k \<in> notified_set s"
  shows "k \<in> notified_set (run_cycles cycles s) \<and>
         k \<in> notified_set (snd (check_lesson_marks e now today s)) \<and>
         k \<in> notified_set (snd (notify e l a u s)) \<and>
         (k' \<in> notified_set (snd (prepare e l a u s))) = (k' \<in> notified_set s) \<and>
         (l ''moduleName'' = Some mn \<and> hashable mn = Inr mk \<and> k = (u, mk, a) \<longrightarrow>
            notify e l a u (run_cycles cycles s) =
              (None, emit [Log DEBUG ''Already notified user''] (run_cycles cycles s)) \<and>
            attempts (snd (notify e l a u (run_cycles cycles s))) =
              attempts (run_cycles cycles s))"
proof -
  have a: "k \<in> notified_set (run_cycles cycles s)"
    using assms grows_subset[OF run_cycles_grows[of s cycles]] by auto
  have b: "k \<in> notified_set (snd (check_lesson_marks e now today s))"
    using assms grows_subset[OF check_lesson_marks_grows[of s e now today]] by auto
  have c: "k \<in> notified_set (snd (notify e l a u s))"
    using assms grows_subset[OF notify_grows[of s e l a u]] by auto
  have d: "(k' \<in> notified_set (snd (prepare e l a u s))) = (k' \<in> notified_set s)"
    using prepare_state[of e l a u s "fst (prepare e l a u s)" "snd (prepare e l a u s)"]
    by simp
  have f: "notify e l a u s' = (None, emit [Log DEBUG ''Already notified user''] s') \<and>
           attempts (snd (notify e l a u s')) = attempts s'"
    if "l ''moduleName'' = Some mn" "hashable mn = Inr mk" "(u, mk, a) \<in> notified_set s'" for s'
    using that by (simp add: notify_def prepare_def emit_def)
  from a b c d f show ?thesis by blast
qed

text \<open>
  The key recorded for user 8 in the cycle of 09:38 is still there after the cycle of 09:39.
\<close>

theorem notified_keys_stay_notified_witness:
  "(8, PStr ''Algebra'', ''entry'') \<in>
     notified_set (snd (check_lesson_marks flaky (at_clock 9 38)
                          \<lparr>year = 2024, month = 3, day = 5\<rparr> fresh)) \<and>
   (8, PStr ''Algebra'', ''entry'') \<in>
     notified_set (run_cycles [(flaky, at_clock 9 39, \<lparr>year = 2024, month = 3, day = 5\<rparr>)]
       (snd (check_lesson_marks flaky (at_clock 9 38) \<lparr>year = 2024, month = 3, day = 5\<rparr> fresh)))"
proof -
  have h: "(8, PStr ''Algebra'', ''entry'') \<in>
     notified_set (snd (check_lesson_marks flaky (at_clock 9 38)
                          \<lparr>year = 2024, month = 3, day = 5\<rparr> fresh))"
    by (simp add: cycle_simps eval_simps)
  from notified_keys_stay_notified[OF h,
      of "[(flaky, at_clock 9 39, \<lparr>year = 2024, month = 3, day = 5\<rparr>)]"] h
  show ?thesis by simp
qed

text \<open>
  Claim C2. Let the iteration for a student arrive at the send (the key is not yet in
  \<^verbatim>\<open>notified_set\<close>, language and text are found) and let \<^verbatim>\<open>bot.send_message\<close> raise.
  Then the iteration ends without an exception in a state \<open>s2\<close> that differs from the one
  before the send by the logged failure and the recorded call only: \<^verbatim>\<open>notified_set\<close> is
  as it was and the key, which is the triple of this user, the module name of the lesson
  and this action type, is not in it. From \<open>s2\<close> the student loop goes on with the
  remaining students, the task loop after them with the remaining tasks, and the group
  loop after those with the remaining groups. When the send returns instead, exactly this
  key is added. An exception leaves an iteration only if it was raised before the send,
  and what happens before the send does not depend on how \<^verbatim>\<open>bot.send_message\<close> behaves.
  In every cycle, whatever the surroundings, no exception reaches the caller, the cycle
  with a non-empty mapping is the run of the group loop, and \<^verbatim>\<open>notified_set\<close> afterwards
  is the set before together with exactly the keys whose send in this cycle returned.
\<close>

theorem failed_send_is_isolated:
  assumes "prepare e l action_type user_id s = (Inr (Ready key msg), s1)"
    and "send_message e (length (attempts s)) user_id msg = Some err"
  shows
    "(let s2 = s1\<lparr>emitted := emitted s1 @ [Log ERROR ''Failed to send notification to user''],
                  attempts := attempts s @ [(key, msg, False)]\<rparr>
      in notify e l action_type user_id s = (None, s2) \<and>
         notified_set s2 = notified_set s \<and> key \<notin> notified_set s2 \<and>
         for_students e l action_type (user_id # rest) s =
           for_students e l action_type rest s2 \<and>
         for_entries e (\<lparr>lesson = l, type = action_type, students = user_id # rest\<rparr> # later) s =
           (case for_students e l action_type rest s2 of
              (Some err', s3) \<Rightarrow> (Some err', s3)
            | (None, s3) \<Rightarrow> for_entries e later s3) \<and>
         (get_lessons_to_check e group_id schedule_data now =
            (Inr (\<lparr>lesson = l, type = action_type, students = user_id # rest\<rparr> # later), rs) \<and>
          s = emit (rs @ [Log INFO ''Found lessons to check'']) s0 \<longrightarrow>
            for_groups e now ((group_id, schedule_data) # groups) s0 =
              (case for_students e l action_type rest s2 of
                 (Some err', s3) \<Rightarrow> (Some err', s3)
               | (None, s3) \<Rightarrow>
                   (case for_entries e later s3 of
                      (Some err', s4) \<Rightarrow> (Some err', s4)
                    | (None, s4) \<Rightarrow> for_groups e now groups s4)))) \<and>
     key = (user_id, fst (snd key), action_type) \<and>
     (\<exists>mn. l ''moduleName'' = Some mn \<and> hashable mn = Inr (fst (snd key))) \<and>
     (prepare e' l' a' u' s' = (Inr (Ready key' msg'), s1') \<and>
      send_message e' (length (attempts s')) u' msg' = None \<longrightarrow>
        notify e' l' a' u' s' =
          (None, s1'\<lparr>emitted := emitted s1' @ [Log INFO ''Sent notification to user''],
                     attempts := attempts s' @ [(key', msg', True)],
                     notified_set := insert key' (notified_set s')\<rparr>)) \<and>
     (fst (notify e' l' a' u' s') = Some err') = (fst (prepare e' l' a' u' s') = Inl err') \<and>
     prepare (e'\<lparr>send_message := f\<rparr>) l' a' u' s' = prepare e' l' a' u' s' \<and>
     fst (check_lesson_marks e' now' today s') = None \<and>
     (get_all_group_schedules_today e' today = Inr (gr # grs) \<longrightarrow>
        check_lesson_marks e' now' today s' =
          (case for_groups e' now' (gr # grs) (emit [Log INFO ''Starting lesson check''] s') of
             (Some err', s5) \<Rightarrow> (None, emit [Log ERROR ''Error in check_lesson_marks''] s5)
           | (None, s5) \<Rightarrow> (None, s5))) \<and>
     notified_set (snd (check_lesson_marks e' now' today s')) =
       notified_set s' \<union>
       {k. \<exists>m. (k, m, True) \<in>
              set (drop (length (attempts s')) (attempts (snd (check_lesson_marks e' now' today s'))))}"
proof -
  define s2 where "s2 = s1\<lparr>emitted := emitted s1 @ [Log ERROR ''Failed to send notification to user''],
                  attempts := attempts s @ [(key, msg, False)]\<rparr>"
  let ?task = "\<lparr>lesson = l, type = action_type, students = user_id # rest\<rparr>"
  from prepare_state[OF assms(1)] have st: "notified_set s1 = notified_set s" "attempts s1 = attempts s"
    by simp_all
  from prepare_Ready[OF assms(1)] have nk: "key \<notin> notified_set s"
    and kk: "key = (user_id, fst (snd key), action_type)"
    and mn: "\<exists>mn. l ''moduleName'' = Some mn \<and> hashable mn = Inr (fst (snd key))"
    by (simp_all add: prod_eq_iff)
  have n: "notify e l action_type user_id s = (None, s2)"
    using assms st by (simp add: notify_def send_and_record_def emit_def s2_def)
  have ns: "notified_set s2 = notified_set s" "key \<notin> notified_set s2"
    using st nk by (simp_all add: s2_def)
  have fs: "for_students e l action_type (user_id # rest) s = for_students e l action_type rest s2"
    using n by simp
  have fe: "for_entries e (?task # later) s =
           (case for_students e l action_type rest s2 of
              (Some err', s3) \<Rightarrow> (Some err', s3)
            | (None, s3) \<Rightarrow> for_entries e later s3)"
    using fs by simp
  have fg: "for_groups e now ((group_id, schedule_data) # groups) s0 =
              (case for_students e l action_type rest s2 of
                 (Some err', s3) \<Rightarrow> (Some err', s3)
               | (None, s3) \<Rightarrow>
                   (case for_entries e later s3 of
                      (Some err', s4) \<Rightarrow> (Some err', s4)
                    | (None, s4) \<Rightarrow> for_groups e now groups s4))"
    if "get_lessons_to_check e group_id schedule_data now = (Inr (?task # later), rs)"
      "s = emit (rs @ [Log INFO ''Found lessons to check'']) s0"
  proof -
    have "for_groups e now ((group_id, schedule_data) # groups) s0 =
            (case for_entries e (?task # later) s of
               (Some err', s4) \<Rightarrow> (Some err', s4)
             | (None, s4) \<Rightarrow> for_groups e now groups s4)"
      using that by simp
    also have "\<dots> = (case for_students e l action_type rest s2 of
                 (Some err', s3) \<Rightarrow> (Some err', s3)
               | (None, s3) \<Rightarrow>
                   (case for_entries e later s3 of
                      (Some err', s4) \<Rightarrow> (Some err', s4)
                    | (None, s4) \<Rightarrow> for_groups e now groups s4))"
      unfolding fe by (cases "for_students e l action_type rest s2") (auto split: option.splits)
    finally show ?thesis .
  qed
  have first: "notify e l action_type user_id s = (None, s2) \<and>
         notified_set s2 = notified_set s \<and> key \<notin> notified_set s2 \<and>
         for_students e l action_type (user_id # rest) s =
           for_students e l action_type rest s2 \<and>
         for_entries e (?task # later) s =
           (case for_students e l action_type rest s2 of
              (Some err', s3) \<Rightarrow> (Some err', s3)
            | (None, s3) \<Rightarrow> for_entries e later s3) \<and>
         (get_lessons_to_check e group_id schedule_data now = (Inr (?task # later), rs) \<and>
          s = emit (rs @ [Log INFO ''Found lessons to check'']) s0 \<longrightarrow>
            for_groups e now ((group_id, schedule_data) # groups) s0 =
              (case for_students e l action_type rest s2 of
                 (Some err', s3) \<Rightarrow> (Some err', s3)
               | (None, s3) \<Rightarrow>
                   (case for_entries e later s3 of
                      (Some err', s4) \<Rightarrow> (Some err', s4)
                    | (None, s4) \<Rightarrow> for_groups e now groups s4)))"
    using n ns fs fe fg by blast
  have ok: "notify e' l' a' u' s' =
          (None, s1'\<lparr>emitted := emitted s1' @ [Log INFO ''Sent notification to user''],
                     attempts := attempts s' @ [(key', msg', True)],
                     notified_set := insert key' (notified_set s')\<rparr>)"
    if "prepare e' l' a' u' s' = (Inr (Ready key' msg'), s1')"
      "send_message e' (length (attempts s')) u' msg' = None"
    using that prepare_state[OF that(1)]
    by (simp add: notify_def send_and_record_def emit_def)
  have raises: "(fst (notify e' l' a' u' s') = Some err') = (fst (prepare e' l' a' u' s') = Inl err')"
    by (simp add: notify_def split: prod.splits sum.splits prepared.splits)
  have indep: "prepare (e'\<lparr>send_message := f\<rparr>) l' a' u' s' = prepare e' l' a' u' s'"
    by (simp add: prepare_def prepare_ignores_sends
          cong: option.case_cong sum.case_cong if_cong)
  have top: "check_lesson_marks e' now' today s' =
          (case for_groups e' now' (gr # grs) (emit [Log INFO ''Starting lesson check''] s') of
             (Some err', s5) \<Rightarrow> (None, emit [Log ERROR ''Error in check_lesson_marks''] s5)
           | (None, s5) \<Rightarrow> (None, s5))"
    if "get_all_group_schedules_today e' today = Inr (gr # grs)"
    using that by (simp add: check_lesson_marks_def cycle_body_def)
  from check_lesson_marks_grows[of s' e' now' today] obtain new where
    new: "attempts (snd (check_lesson_marks e' now' today s')) = attempts s' @ new"
         "notified_set (snd (check_lesson_marks e' now' today s')) =
            notified_set s' \<union> {k. \<exists>m. (k, m, True) \<in> set new}"
    unfolding grows_def by blast
  have only: "notified_set (snd (check_lesson_marks e' now' today s')) =
       notified_set s' \<union>
       {k. \<exists>m. (k, m, True) \<in>
              set (drop (length (attempts s')) (attempts (snd (check_lesson_marks e' now' today s'))))}"
    using new by simp
  from first kk mn ok raises indep check_lesson_marks_returns[of e' now' today s'] top only
  show ?thesis unfolding Let_def s2_def[symmetric] by blast
qed

text \<open>
  Two students, and every send to user 7 fails. In the task loop over the entry and the
  exit task of the short lesson the failed send to user 7 is followed by the send to
  user 8 and then by the exit task, and only the keys of user 8 are recorded. A whole
  cycle over two groups goes on to the second group after that, where user 7 is tried
  again and user 8 is found already notified.
\<close>

theorem failed_send_is_isolated_witness:
  "prepare flaky short_lesson ''entry'' 7 fresh =
     (Inr (Ready (7, PStr ''Algebra'', ''entry'') ''Check in now''),
      \<lparr>notified_set = {}, attempts = [], draws = 1, emitted = []\<rparr>) \<and>
   send_message flaky (length (attempts fresh)) 7 ''Check in now'' = Some (Failure ''Forbidden'') \<and>
   for_entries flaky [entry_task short_lesson [7, 8], exit_task short_lesson [7, 8]] fresh =
     (None,
      \<lparr>notified_set = {(8, PStr ''Algebra'', ''exit''), (8, PStr ''Algebra'', ''entry'')},
       attempts = [((7, PStr ''Algebra'', ''entry''), ''Check in now'', False),
                   ((8, PStr ''Algebra'', ''entry''), ''Check in now'', True),
                   ((7, PStr ''Algebra'', ''exit''), ''Check out now'', False),
                   ((8, PStr ''Algebra'', ''exit''), ''Check out now'', True)],
       draws = 4,
       emitted = [Log ERROR ''Failed to send notification to user'',
                  Log INFO ''Sent notification to user'',
                  Log ERROR ''Failed to send notification to user'',
                  Log INFO ''Sent notification to user'']\<rparr>) \<and>
   fst (check_lesson_marks flaky_two_groups (at_clock 9 38)
          \<lparr>year = 2024, month = 3, day = 5\<rparr> fresh) = None \<and>
   notified_set (snd (check_lesson_marks flaky_two_groups (at_clock 9 38)
          \<lparr>year = 2024, month = 3, day = 5\<rparr> fresh)) =
     {(8, PStr ''Algebra'', ''exit''), (8, PStr ''Algebra'', ''entry'')} \<and>
   attempts (snd (check_lesson_marks flaky_two_groups (at_clock 9 38)
          \<lparr>year = 2024, month = 3, day = 5\<rparr> fresh)) =
     [((7, PStr ''Algebra'', ''entry''), ''Check in now'', False),
      ((8, PStr ''Algebra'', ''entry''), ''Check in now'', True),
      ((7, PStr ''Algebra'', ''exit''), ''Check out now'', False),
      ((8, PStr ''Algebra'', ''exit''), ''Check out now'', True),
      ((7, PStr ''Algebra'', ''entry''), ''Check in now'', False)]"
proof -
  have h1: "prepare flaky short_lesson ''entry'' 7 fresh =
     (Inr (Ready (7, PStr ''Algebra'', ''entry'') ''Check in now''),
      \<lparr>notified_set = {}, attempts = [], draws = 1, emitted = []\<rparr>)"
    by (simp add: cycle_simps short_lesson_def algebra_def)
  have h2: "send_message flaky (length (attempts fresh)) 7 ''Check in now'' =
              Some (Failure ''Forbidden'')"
    by (simp add: flaky_def)
  have r: "(case for_students flaky short_lesson ''entry'' [8]
             \<lparr>notified_set = {}, attempts = [((7, PStr ''Algebra'', ''entry''), ''Check in now'', False)],
              draws = 1, emitted = [Log ERROR ''Failed to send notification to user'']\<rparr> of
              (Some err', s3) \<Rightarrow> (Some err', s3)
            | (None, s3) \<Rightarrow> for_entries flaky [exit_task short_lesson [7, 8]] s3) =
     (None,
      \<lparr>notified_set = {(8, PStr ''Algebra'', ''exit''), (8, PStr ''Algebra'', ''entry'')},
       attempts = [((7, PStr ''Algebra'', ''entry''), ''Check in now'', False),
                   ((8, PStr ''Algebra'', ''entry''), ''Check in now'', True),
                   ((7, PStr ''Algebra'', ''exit''), ''Check out now'', False),
                   ((8, PStr ''Algebra'', ''exit''), ''Check out now'', True)],
       draws = 4,
       emitted = [Log ERROR ''Failed to send notification to user'',
                  Log INFO ''Sent notification to user'',
                  Log ERROR ''Failed to send notification to user'',
                  Log INFO ''Sent notification to user'']\<rparr>)"
    by (simp add: cycle_simps short_lesson_def algebra_def)
  have c: "check_lesson_marks flaky_two_groups (at_clock 9 38)
          \<lparr>year = 2024, month = 3, day = 5\<rparr> fresh =
     (None,
      \<lparr>notified_set = {(8, PStr ''Algebra'', ''exit''), (8, PStr ''Algebra'', ''entry'')},
       attempts = [((7, PStr ''Algebra'', ''entry''), ''Check in now'', False),
                   ((8, PStr ''Algebra'', ''entry''), ''Check in now'', True),
                   ((7, PStr ''Algebra'', ''exit''), ''Check out now'', False),
                   ((8, PStr ''Algebra'', ''exit''), ''Check out now'', True),
                   ((7, PStr ''Algebra'', ''entry''), ''Check in now'', False)],
       draws = 5,
       emitted = [Log INFO ''Starting lesson check'',
                  Log DEBUG ''Added entry check'', Log DEBUG ''Added exit check'',
                  Log INFO ''Found lessons to check'',
                  Log ERROR ''Failed to send notification to user'',
                  Log INFO ''Sent notification to user'',
                  Log ERROR ''Failed to send notification to user'',
                  Log INFO ''Sent notification to user'',
                  Log DEBUG ''Added entry check'',
                  Log INFO ''Found lessons to check'',
                  Log ERROR ''Failed to send notification to user'',
                  Log DEBUG ''Already notified user'']\<rparr>)"
    by (simp add: cycle_simps eval_simps flaky_two_groups_def)
  from failed_send_is_isolated[OF h1 h2, where rest = "[8]"
      and later = "[exit_task short_lesson [7, 8]]"] h1 h2 r c
  show ?thesis by (simp add: fresh_def Let_def)
qed

section \<open>Claim about \<^verbatim>\<open>setup_lesson_check_scheduler\<close>\<close>

text \<open>
  Claim C8. What \<^verbatim>\<open>setup_lesson_check_scheduler\<close> returns or raises is what the body of
  its \<^verbatim>\<open>try\<close> returns or raises: the handler adds a log record and raises the same
  exception again. So an exception of the scheduler's constructor, of the construction of
  any cron trigger or the registration of any job (the registrations before it having
  succeeded), or of the start reaches the caller.
\<close>

theorem scheduler_setup_failure_propagates:
  "fst (setup_lesson_check_scheduler api) = fst (setup_body api) \<and>
   (AsyncIOScheduler api ''UTC'' = Inl err \<longrightarrow>
      fst (setup_lesson_check_scheduler api) = Inl err) \<and>
   (AsyncIOScheduler api ''UTC'' = Inr sch \<and>
    REMINDER_TIMES = pre @ (t, label) # post \<and>
    fst (add_jobs api pre sch []) = Inr sch1 \<and>
    (CronTrigger api (hour t) (minute t) ''mon-sat'' = Inl err \<or>
     CronTrigger api (hour t) (minute t) ''mon-sat'' = Inr trigger \<and>
     add_job api sch1 trigger (job_id t label) = Inl err) \<longrightarrow>
      fst (setup_lesson_check_scheduler api) = Inl err) \<and>
   (AsyncIOScheduler api ''UTC'' = Inr sch \<and>
    fst (add_jobs api REMINDER_TIMES sch []) = Inr sch2 \<and>
    start api sch2 = Inl err \<longrightarrow>
      fst (setup_lesson_check_scheduler api) = Inl err)"
proof -
  let ?rs = "[Log INFO ''Setting up lesson check scheduler'']"
  have a: "fst (setup_lesson_check_scheduler api) = fst (setup_body api)"
    by (simp add: setup_lesson_check_scheduler_def split: prod.splits sum.splits)
  have body: "fst (setup_body api) =
     (case AsyncIOScheduler api ''UTC'' of
        Inl err \<Rightarrow> Inl err
      | Inr sch \<Rightarrow>
          (case fst (add_jobs api REMINDER_TIMES sch []) of
             Inl err \<Rightarrow> Inl err
           | Inr sch' \<Rightarrow> start api sch'))"
  proof (cases "AsyncIOScheduler api ''UTC''")
    case (Inl err)
    then show ?thesis by (simp add: setup_body_def)
  next
    case (Inr sch)
    obtain r rs' where j: "add_jobs api REMINDER_TIMES sch ?rs = (r, rs')"
      by (cases "add_jobs api REMINDER_TIMES sch ?rs")
    then have "fst (add_jobs api REMINDER_TIMES sch []) = r"
      using add_jobs_logs_irrelevant[of api REMINDER_TIMES sch "[]" ?rs] by simp
    with Inr j show ?thesis
      by (cases r; cases "start api (projr r)") (simp_all add: setup_body_def)
  qed
  have b: "fst (setup_lesson_check_scheduler api) = Inl err"
    if "AsyncIOScheduler api ''UTC'' = Inl err"
    using that by (simp add: a body)
  have c: "fst (setup_lesson_check_scheduler api) = Inl err"
    if "AsyncIOScheduler api ''UTC'' = Inr sch" "REMINDER_TIMES = pre @ (t, label) # post"
      "fst (add_jobs api pre sch []) = Inr sch1"
      "CronTrigger api (hour t) (minute t) ''mon-sat'' = Inl err \<or>
       CronTrigger api (hour t) (minute t) ''mon-sat'' = Inr trigger \<and>
       add_job api sch1 trigger (job_id t label) = Inl err"
  proof -
    have "fst (add_jobs api ((t, label) # post) sch1 []) = Inl err"
      using that(4) by auto
    then have "fst (add_jobs api REMINDER_TIMES sch []) = Inl err"
      unfolding that(2) add_jobs_append[of api pre _ sch "[]"] using that(3) by simp
    then show ?thesis using that(1) by (simp add: a body)
  qed
  have d: "fst (setup_lesson_check_scheduler api) = Inl err"
    if "AsyncIOScheduler api ''UTC'' = Inr sch" "fst (add_jobs api REMINDER_TIMES sch []) = Inr sch2"
      "start api sch2 = Inl err"
    using that by (simp add: a body)
  from a b c d show ?thesis by blast
qed

text \<open>
  A library that refuses the trigger of 11:05 makes the setup raise that
  \<^verbatim>\<open>ValueError\<close> after two jobs; one whose scheduler does not start makes it raise the
  failure of the start after all twelve.
\<close>

theorem scheduler_setup_failure_propagates_witness:
  "setup_lesson_check_scheduler refusing =
     (Inl ValueError,
      [Log INFO ''Setting up lesson check scheduler'', Log INFO ''Added job'',
       Log INFO ''Added job'', Log ERROR ''Failed to setup lesson check scheduler'']) \<and>
   fst (setup_lesson_check_scheduler stalling) = Inl (Failure ''no running event loop'') \<and>
   fst (add_jobs stalling REMINDER_TIMES 0 []) = Inr 12"
proof -
  have r: "setup_lesson_check_scheduler refusing =
     (Inl ValueError,
      [Log INFO ''Setting up lesson check scheduler'', Log INFO ''Added job'',
       Log INFO ''Added job'', Log ERROR ''Failed to setup lesson check scheduler''])"
    by (simp add: setup_lesson_check_scheduler_def setup_body_def REMINDER_TIMES_def refusing_def)
  have h1: "AsyncIOScheduler stalling ''UTC'' = Inr 0" by (simp add: stalling_def)
  have h2: "fst (add_jobs stalling REMINDER_TIMES 0 []) = Inr 12"
    by (simp add: REMINDER_TIMES_def stalling_def)
  have h3: "start stalling 12 = Inl (Failure ''no running event loop'')" by (simp add: stalling_def)
  have "fst (setup_lesson_check_scheduler stalling) = Inl (Failure ''no running event loop'')"
    using scheduler_setup_failure_propagates[of stalling "Failure ''no running event loop''" 0
        _ _ _ _ _ _ 12, THEN conjunct2, THEN conjunct2, THEN conjunct2] h1 h2 h3
    by blast
  with r h2 show ?thesis by simp
qed

end
